theory Spec2Isabelle
  imports Complex_Main "HOL-Library.Multiset" "HOL-Library.Log_Nat"
begin

section \<open>Data model of \<open>code/data_batcher.py\<close>\<close>

text \<open>
  The module is Python 2: a \<open>str\<close> is a byte string (here \<open>string\<close>, a list of
  bytes), \<open>map\<close> and \<open>zip\<close> return lists, and \<open>/\<close> on floats is true division.
  A Python float is an IEEE double, modelled by the rational number it denotes; every
  operation on floats rounds its exact result to the nearest double (see \<open>double\<close>
  below). Lengths given as configuration (\<open>batch_size\<close>,
  \<open>context_len\<close>, \<open>question_len\<close>, \<open>word_len\<close>, \<open>num_feats\<close>) are natural
  numbers, word ids and answer positions are unbounded integers.
\<close>

datatype error = ValueError | AssertionError

text \<open>
  The read-only arguments that \<open>get_batch_generator\<close> hands unchanged to
  \<open>refill_batches\<close>, bundled into one record, together with the two constants
  \<open>PAD_ID\<close> and \<open>UNK_ID\<close> that the module imports from \<open>vocab\<close> (a module that is
  not part of the sources at hand, so the two are parameters).
\<close>

record params =
  word2id :: "string \<rightharpoonup> int"
  batch_size :: nat
  context_len :: nat
  question_len :: nat
  discard_long :: bool
  num_feats :: nat
  word_len :: nat
  mcids_dict :: "int \<rightharpoonup> int"
  PAD_ID :: int
  UNK_ID :: int

text \<open>
  The 13-tuple appended to \<open>examples\<close> (line 263); the fields are named after the
  variables of the tuple, in the tuple's order.
\<close>

record example =
  ex_context_ids :: "int list"
  ex_context_tokens :: "string list"
  ex_qn_ids :: "int list"
  ex_qn_tokens :: "string list"
  ex_ans_span :: "int list"
  ex_ans_tokens :: "string list"
  ex_feats :: "rat list list"
  ex_char_ids :: "int list list"
  ex_commonQ_mask :: "bool list"
  ex_commonQ_emb_indices :: "int list"
  ex_charQ_ids :: "int list list"
  ex_commonC_mask :: "bool list"
  ex_commonC_emb_indices :: "int list"

subsection \<open>Strings: \<open>str.split\<close>, \<open>str.strip\<close>, \<open>str.lower\<close>, \<open>re.split\<close>, \<open>int\<close>\<close>

definition is_space :: "char \<Rightarrow> bool" where
  "is_space c \<longleftrightarrow> c \<in> {CHR '' '', CHR 0x09, CHR 0x0A, CHR 0x0B, CHR 0x0C, CHR 0x0D}"

text \<open>\<open>s.split()\<close>: the maximal runs of non-whitespace bytes, in order.\<close>

fun split_acc :: "string \<Rightarrow> string \<Rightarrow> string list" where
  "split_acc cur [] = (if cur = [] then [] else [cur])"
| "split_acc cur (c # cs) =
     (if is_space c then (if cur = [] then split_acc [] cs else cur # split_acc [] cs)
      else split_acc (cur @ [c]) cs)"

definition str_split :: "string \<Rightarrow> string list" where
  "str_split s = split_acc [] s"

definition strip :: "string \<Rightarrow> string" where
  "strip s = rev (dropWhile is_space (rev (dropWhile is_space s)))"

text \<open>\<open>re.split(" ", s)\<close>: cut at every single space, empty pieces kept.\<close>

fun re_split_space_acc :: "string \<Rightarrow> string \<Rightarrow> string list" where
  "re_split_space_acc cur [] = [cur]"
| "re_split_space_acc cur (c # cs) =
     (if c = CHR '' '' then cur # re_split_space_acc [] cs
      else re_split_space_acc (cur @ [c]) cs)"

definition re_split_space :: "string \<Rightarrow> string list" where
  "re_split_space s = re_split_space_acc [] s"

definition lower_char :: "char \<Rightarrow> char" where
  "lower_char c =
     (let n = (of_char c :: nat) in if 65 \<le> n \<and> n \<le> 90 then char_of (n + 32) else c)"

definition lower :: "string \<Rightarrow> string" where
  "lower s = map lower_char s"

definition is_digit :: "char \<Rightarrow> bool" where
  "is_digit c \<longleftrightarrow> 48 \<le> (of_char c :: nat) \<and> (of_char c :: nat) \<le> 57"

definition digits_value :: "string \<Rightarrow> int" where
  "digits_value ds = foldl (\<lambda>n c. 10 * n + (int (of_char c) - 48)) 0 ds"

text \<open>
  \<open>int(s)\<close> on a piece without whitespace: an optional sign and at least one decimal
  digit, anything else raises \<open>ValueError\<close>.
\<close>

definition py_int :: "string \<Rightarrow> error + int" where
  "py_int s =
     (let (neg, ds) = (case s of [] \<Rightarrow> (False, [])
                       | c # cs \<Rightarrow> if c = CHR ''-'' then (True, cs)
                                  else if c = CHR ''+'' then (False, cs)
                                  else (False, c # cs))
      in if ds \<noteq> [] \<and> list_all is_digit ds
         then Inr (if neg then - digits_value ds else digits_value ds)
         else Inl ValueError)"

text \<open>A list comprehension whose element expression may raise stops at the first raise.\<close>

fun map_result :: "('a \<Rightarrow> error + 'b) \<Rightarrow> 'a list \<Rightarrow> error + 'b list" where
  "map_result f [] = Inr []"
| "map_result f (x # xs) =
     (case f x of Inl e \<Rightarrow> Inl e
      | Inr y \<Rightarrow> (case map_result f xs of Inl e \<Rightarrow> Inl e | Inr ys \<Rightarrow> Inr (y # ys)))"

text \<open>\<open>max(xs)\<close> raises \<open>ValueError\<close> on an empty sequence.\<close>

definition py_max :: "nat list \<Rightarrow> error + nat" where
  "py_max xs = (case xs of [] \<Rightarrow> Inl ValueError | x # r \<Rightarrow> Inr (foldl max x r))"

text \<open>
  \<open>xs[i:j]\<close> for integers \<open>i\<close>, \<open>j\<close>: a negative bound counts from the end, and both
  bounds are clamped to the list.
\<close>

definition slice_bound :: "nat \<Rightarrow> int \<Rightarrow> nat" where
  "slice_bound n k = (if k < 0 then nat (max 0 (k + int n)) else min (nat k) n)"

definition py_slice :: "'a list \<Rightarrow> int \<Rightarrow> int \<Rightarrow> 'a list" where
  "py_slice xs i j =
     (let lo = slice_bound (length xs) i; hi = slice_bound (length xs) j
      in take (hi - lo) (drop lo xs))"

subsection \<open>Tokenizer\<close>

definition split_by_whitespace :: "string \<Rightarrow> string list" where
  "split_by_whitespace sentence =
     (let words = concat (map re_split_space (str_split (strip sentence)))
      in filter (\<lambda>w. w \<noteq> []) words)"

definition intstr_to_intlist :: "string \<Rightarrow> error + int list" where
  "intstr_to_intlist s = map_result py_int (str_split s)"

definition sentence_to_token_ids ::
  "int \<Rightarrow> string \<Rightarrow> (string \<rightharpoonup> int) \<Rightarrow> string list \<times> int list" where
  "sentence_to_token_ids unk sentence w2i =
     (let tokens = split_by_whitespace sentence;
          ids = map (\<lambda>w. case w2i w of None \<Rightarrow> unk | Some i \<Rightarrow> i) tokens
      in (tokens, ids))"

text \<open>The word ids of a list of tokens (the comprehension of line 109).\<close>

definition word_ids :: "params \<Rightarrow> string list \<Rightarrow> int list" where
  "word_ids P toks = map (\<lambda>w. case word2id P w of None \<Rightarrow> UNK_ID P | Some i \<Rightarrow> i) toks"

subsection \<open>Padding\<close>

text \<open>
  The three padding functions share one shape: the target length is \<open>batch_pad\<close>, or
  the longest row when \<open>batch_pad\<close> is 0 (which raises on an empty batch), and a row
  already as long as the target is left as it is (\<open>[x] * k\<close> is empty for \<open>k \<le> 0\<close>).
\<close>

definition pad_rows :: "'a \<Rightarrow> 'a list list \<Rightarrow> nat \<Rightarrow> error + 'a list list" where
  "pad_rows filler token_batch batch_pad =
     (case (if batch_pad = 0 then py_max (map length token_batch) else Inr batch_pad) of
        Inl e \<Rightarrow> Inl e
      | Inr maxlen \<Rightarrow>
          Inr (map (\<lambda>token_list. token_list @ replicate (maxlen - length token_list) filler)
                   token_batch))"

definition padded :: "int \<Rightarrow> int list list \<Rightarrow> nat \<Rightarrow> error + int list list" where
  "padded pad token_batch batch_pad = pad_rows pad token_batch batch_pad"

definition paddedBool :: "bool list list \<Rightarrow> nat \<Rightarrow> error + bool list list" where
  "paddedBool token_batch batch_pad = pad_rows False token_batch batch_pad"

text \<open>
  \<open>padded2\<close> fills with a row of \<open>num_feats\<close> copies of \<open>PAD_ID\<close> (a list when
  \<open>islist\<close>, a tuple otherwise; both are lists here).
\<close>

definition padded2 ::
  "'a \<Rightarrow> 'a list list list \<Rightarrow> nat \<Rightarrow> nat \<Rightarrow> error + 'a list list list" where
  "padded2 pad token_batch nfeats batch_pad =
     pad_rows (replicate nfeats pad) token_batch batch_pad"

subsection \<open>Feature extraction (the first half of the loop body of \<open>refill_batches\<close>)\<close>

definition char2id :: "(char \<times> int) list" where
  "char2id =
     [(CHR ''a'', 2), (CHR ''b'', 3), (CHR ''c'', 4), (CHR ''d'', 5), (CHR ''e'', 6),
      (CHR ''f'', 7), (CHR ''g'', 8), (CHR ''h'', 9), (CHR ''i'', 10), (CHR ''j'', 11),
      (CHR ''k'', 12), (CHR ''l'', 13), (CHR ''m'', 14), (CHR ''n'', 15), (CHR ''o'', 16),
      (CHR ''p'', 17), (CHR ''q'', 18), (CHR ''r'', 19), (CHR ''s'', 20), (CHR ''t'', 21),
      (CHR ''u'', 22), (CHR ''v'', 23), (CHR ''w'', 24), (CHR ''x'', 25), (CHR ''y'', 26),
      (CHR ''z'', 27), (CHR ''0'', 28), (CHR ''1'', 29), (CHR ''2'', 30), (CHR ''3'', 31),
      (CHR ''4'', 32), (CHR ''5'', 33), (CHR ''6'', 34), (CHR ''7'', 35), (CHR ''8'', 36),
      (CHR ''9'', 37), (CHR ''.'', 38), (CHR '','', 39), (CHR 0x22, 40), (CHR ''?'', 41),
      (CHR 0x27, 42)]"

text \<open>Lines 185 and 189: the ids of the bytes of the lower-cased token.\<close>

definition tok_char_ids :: "int \<Rightarrow> string \<Rightarrow> int list" where
  "tok_char_ids unk tok =
     map (\<lambda>c. case map_of char2id c of Some i \<Rightarrow> i | None \<Rightarrow> unk) (lower tok)"

text \<open>Lines 185 to 187 (and 189 to 191 for the question): the per-token character ids.\<close>

definition char_ids_of :: "params \<Rightarrow> string list \<Rightarrow> error + int list list" where
  "char_ids_of P tokens =
     (let char_ids = map (tok_char_ids (UNK_ID P)) tokens;
          char_ids = map (take (word_len P)) char_ids
      in padded (PAD_ID P) char_ids (word_len P))"

text \<open>Lines 195 to 199.\<close>

definition common_mask :: "params \<Rightarrow> int list \<Rightarrow> bool list" where
  "common_mask P ids = map (\<lambda>x. mcids_dict P x \<noteq> None) ids"

definition common_emb_indices :: "params \<Rightarrow> int list \<Rightarrow> int list" where
  "common_emb_indices P ids = map (\<lambda>x. case mcids_dict P x of None \<Rightarrow> 0 | Some i \<Rightarrow> i) ids"

text \<open>Line 217: \<open>int(sum([context_token == q for q in qn_tokens]) == 1)\<close>.\<close>

definition match_flag :: "string list \<Rightarrow> string \<Rightarrow> int" where
  "match_flag qn_tokens context_token =
     (if sum_list (map (\<lambda>q. if context_token = q then (1::int) else 0) qn_tokens) = 1
      then 1 else 0)"

definition match_orig :: "string list \<Rightarrow> string list \<Rightarrow> int list" where
  "match_orig context_tokens qn_tokens = map (match_flag qn_tokens) context_tokens"

text \<open>
  \<open>FreqDist(samples)\<close> is a counter: a dictionary from each distinct sample to its
  number of occurrences, here an association list in order of first occurrence.
  \<open>fdist[w]\<close> is 0 for a sample that never occurred.
\<close>

fun fd_inc :: "'a \<Rightarrow> ('a \<times> nat) list \<Rightarrow> ('a \<times> nat) list" where
  "fd_inc w [] = [(w, 1)]"
| "fd_inc w ((k, c) # kcs) = (if k = w then (k, Suc c) # kcs else (k, c) # fd_inc w kcs)"

definition FreqDist :: "'a list \<Rightarrow> ('a \<times> nat) list" where
  "FreqDist samples = foldl (\<lambda>d w. fd_inc w d) [] samples"

definition fd_get :: "('a \<times> nat) list \<Rightarrow> 'a \<Rightarrow> nat" where
  "fd_get fdist w = (case map_of fdist w of None \<Rightarrow> 0 | Some c \<Rightarrow> c)"

definition fd_values :: "('a \<times> nat) list \<Rightarrow> nat list" where
  "fd_values fdist = map snd fdist"

text \<open>
  IEEE double arithmetic. A finite double is a rational \<open>m * 2 ^ e\<close> with an integer
  \<open>m\<close> of at most 53 bits. \<open>double x\<close> is the double nearest to \<open>x\<close>, the one
  with even \<open>m\<close> when two are equally near (the rounding of every Python float
  operation). The exponent is not bounded: overflow and subnormal numbers are out of
  reach of the term frequencies, which lie between 0.4 and 1 and are computed from
  counts of tokens.
\<close>

definition pow2 :: "int \<Rightarrow> rat" where
  "pow2 e = (if 0 \<le> e then 2 ^ nat e else 1 / 2 ^ nat (- e))"

text \<open>For \<open>x > 0\<close>, the integer \<open>k\<close> with \<open>2 ^ k \<le> x < 2 ^ (k + 1)\<close>.\<close>

definition ilog2 :: "rat \<Rightarrow> int" where
  "ilog2 x = (let (p, q) = quotient_of x; k = bitlen p - bitlen q
              in if pow2 k \<le> x then k else k - 1)"

definition round_half_even :: "rat \<Rightarrow> int" where
  "round_half_even y =
     (let f = \<lfloor>y\<rfloor>; d = y - of_int f
      in if d < 1 / 2 then f else if 1 / 2 < d then f + 1
         else if even f then f else f + 1)"

definition double :: "rat \<Rightarrow> rat" where
  "double x = (if x = 0 then 0
               else (let e = ilog2 \<bar>x\<bar> - 52
                     in of_int (round_half_even (x / pow2 e)) * pow2 e))"

definition fadd :: "rat \<Rightarrow> rat \<Rightarrow> rat" where
  "fadd x y = double (x + y)"

definition fsub :: "rat \<Rightarrow> rat \<Rightarrow> rat" where
  "fsub x y = double (x - y)"

definition fmul :: "rat \<Rightarrow> rat \<Rightarrow> rat" where
  "fmul x y = double (x * y)"

definition fdiv :: "rat \<Rightarrow> rat \<Rightarrow> rat" where
  "fdiv x y = double (x / y)"

text \<open>\<open>float(n)\<close>, also the conversion of an integer operand of a float operation.\<close>

definition float_of_nat :: "nat \<Rightarrow> rat" where
  "float_of_nat n = double (rat_of_nat n)"

text \<open>
  Lines 165 and 221 to 223: the normalized term frequency. \<open>a\<close> is the literal
  \<open>0.4\<close>, the division is by \<open>max_count\<close>, at least 1 for a context with a token.
\<close>

definition tf :: "string list \<Rightarrow> error + rat list" where
  "tf context_tokens =
     (let a = double (4 / 10);
          fdist = FreqDist context_tokens
      in case py_max (fd_values fdist) of
           Inl e \<Rightarrow> Inl e
         | Inr m \<Rightarrow>
             (let max_count = float_of_nat m
              in Inr (map (\<lambda>w. fadd a (fdiv (fmul (fsub 1 a) (float_of_nat (fd_get fdist w)))
                                              max_count))
                          context_tokens)))"

text \<open>Line 228: \<open>zip(*(tf, match_orig))\<close>, one row \<open>(tf, match)\<close> per context token.\<close>

definition zip_feats :: "rat list \<Rightarrow> int list \<Rightarrow> rat list list" where
  "zip_feats tfs ms = map (\<lambda>(t, m). [t, rat_of_int m]) (zip tfs ms)"

subsection \<open>The loop body of \<open>refill_batches\<close> (lines 179 to 263)\<close>

text \<open>
  One pass of the \<open>while\<close> loop on the three lines just read. The result is an
  exception (\<open>Inl\<close>), \<open>Inr None\<close> when the pass ends in \<open>continue\<close> without
  appending, or \<open>Inr (Some e)\<close> with the tuple appended to \<open>examples\<close>. The reading
  of the next three lines (line 232) cannot raise and is done by the loop below.
\<close>

definition loop_body :: "params \<Rightarrow> string \<Rightarrow> string \<Rightarrow> string \<Rightarrow> error + example option" where
  "loop_body P context_line qn_line ans_line =
    (let (context_tokens, context_ids) =
           sentence_to_token_ids (UNK_ID P) context_line (word2id P);
         (qn_tokens, qn_ids) = sentence_to_token_ids (UNK_ID P) qn_line (word2id P)
     in case intstr_to_intlist ans_line of Inl e \<Rightarrow> Inl e | Inr ans_span \<Rightarrow>
        (case char_ids_of P context_tokens of Inl e \<Rightarrow> Inl e | Inr char_ids \<Rightarrow>
        (case char_ids_of P qn_tokens of Inl e \<Rightarrow> Inl e | Inr charQ_ids \<Rightarrow>
        (let commonQ_mask = common_mask P qn_ids;
             commonQ_emb_indices = common_emb_indices P qn_ids;
             commonC_mask = common_mask P context_ids;
             commonC_emb_indices = common_emb_indices P context_ids;
             matches = match_orig context_tokens qn_tokens
         in case tf context_tokens of Inl e \<Rightarrow> Inl e | Inr tfs \<Rightarrow>
            (let feats = zip_feats tfs matches
             in if length ans_span \<noteq> 2 then Inl AssertionError
                else if ans_span ! 1 < ans_span ! 0 then Inr None
                else
                  (let ans_tokens = py_slice context_tokens (ans_span ! 0) (ans_span ! 1 + 1)
                   in if length qn_ids > question_len P \<and> discard_long P then Inr None
                      else
                        (let long_q = length qn_ids > question_len P;
                             qn_ids' = (if long_q then take (question_len P) qn_ids else qn_ids);
                             commonQ_mask' =
                               (if long_q then take (question_len P) commonQ_mask
                                else commonQ_mask);
                             commonQ_emb_indices' =
                               (if long_q then take (question_len P) commonQ_emb_indices
                                else commonQ_emb_indices);
                             charQ_ids' =
                               (if long_q then take (question_len P) charQ_ids else charQ_ids)
                         in if length context_ids > context_len P \<and> discard_long P
                            then Inr None
                            else
                              (let long_c = length context_ids > context_len P;
                                   context_ids' =
                                     (if long_c then take (context_len P) context_ids
                                      else context_ids);
                                   feats' =
                                     (if long_c then take (context_len P) feats else feats);
                                   char_ids' =
                                     (if long_c then take (context_len P) char_ids
                                      else char_ids);
                                   commonC_mask' =
                                     (if long_c then take (context_len P) commonC_mask
                                      else commonC_mask);
                                   commonC_emb_indices' =
                                     (if long_c then take (context_len P) commonC_emb_indices
                                      else commonC_emb_indices)
                               in Inr (Some \<lparr>
                                    ex_context_ids = context_ids',
                                    ex_context_tokens = context_tokens,
                                    ex_qn_ids = qn_ids',
                                    ex_qn_tokens = qn_tokens,
                                    ex_ans_span = ans_span,
                                    ex_ans_tokens = ans_tokens,
                                    ex_feats = feats',
                                    ex_char_ids = char_ids',
                                    ex_commonQ_mask = commonQ_mask',
                                    ex_commonQ_emb_indices = commonQ_emb_indices',
                                    ex_charQ_ids = charQ_ids',
                                    ex_commonC_mask = commonC_mask',
                                    ex_commonC_emb_indices = commonC_emb_indices'\<rparr>)))))))))"

subsection \<open>Files and the \<open>while\<close> loop of \<open>refill_batches\<close>\<close>

text \<open>
  A file opened for reading is the list of its lines not yet read, each line with its
  newline; \<open>readline\<close> returns the empty string at the end of the file.
\<close>

type_synonym pyfile = "string list"

definition readline :: "pyfile \<Rightarrow> string \<times> pyfile" where
  "readline f = (case f of [] \<Rightarrow> ([], []) | l # ls \<Rightarrow> (l, ls))"

text \<open>
  The loop of lines 177 to 267, started on the three lines already read. It returns the
  pool \<open>examples\<close> and the three files, or the exception that ended it.
\<close>

function refill_loop ::
  "params \<Rightarrow> string \<Rightarrow> string \<Rightarrow> string \<Rightarrow> pyfile \<Rightarrow> pyfile \<Rightarrow> pyfile \<Rightarrow> example list
     \<Rightarrow> error + (example list \<times> pyfile \<times> pyfile \<times> pyfile)" where
  "refill_loop P context_line qn_line ans_line context_file qn_file ans_file examples =
     (if context_line \<noteq> [] \<and> qn_line \<noteq> [] \<and> ans_line \<noteq> [] then
        (case loop_body P context_line qn_line ans_line of
           Inl e \<Rightarrow> Inl e
         | Inr r \<Rightarrow>
             (let (context_line', context_file') = readline context_file;
                  (qn_line', qn_file') = readline qn_file;
                  (ans_line', ans_file') = readline ans_file
              in case r of
                   None \<Rightarrow>
                     refill_loop P context_line' qn_line' ans_line'
                       context_file' qn_file' ans_file' examples
                 | Some ex \<Rightarrow>
                     (let examples' = examples @ [ex]
                      in if length examples' = batch_size P * 160
                         then Inr (examples', context_file', qn_file', ans_file')
                         else refill_loop P context_line' qn_line' ans_line'
                                context_file' qn_file' ans_file' examples')))
      else Inr (examples, context_file, qn_file, ans_file))"
  by pat_completeness auto
termination
  by (relation "measure (\<lambda>(P, cl, ql, al, cf, qf, af, exs).
                   length cf + (if cl = [] then 0 else 1))")
     (auto simp: readline_def split: list.splits)

subsection \<open>Sorting, chunking and shuffling (lines 273 to 284)\<close>

text \<open>\<open>xrange(start, stop, step)\<close> for a positive step.\<close>

definition xrange :: "nat \<Rightarrow> nat \<Rightarrow> nat \<Rightarrow> nat list" where
  "xrange start stop step =
     map (\<lambda>k. start + k * step) [0 ..< (stop - start + step - 1) div step]"

text \<open>
  The 13-tuple of columns that \<open>zip(*rows)\<close> makes of a slice of the pool and that is
  appended to \<open>batches\<close>; the fields carry the names of line 279.
\<close>

record columns =
  context_ids_batch :: "int list list"
  context_tokens_batch :: "string list list"
  qn_ids_batch :: "int list list"
  qn_tokens_batch :: "string list list"
  ans_span_batch :: "int list list"
  ans_tokens_batch :: "string list list"
  feats_batch :: "rat list list list"
  char_ids_batch :: "int list list list"
  commonQ_mask_batch :: "bool list list"
  commonQ_emb_indices_batch :: "int list list"
  charQ_ids_batch :: "int list list list"
  commonC_mask_batch :: "bool list list"
  commonC_emb_indices_batch :: "int list list"

definition zip_star :: "example list \<Rightarrow> columns" where
  "zip_star rows = \<lparr>
     context_ids_batch = map ex_context_ids rows,
     context_tokens_batch = map ex_context_tokens rows,
     qn_ids_batch = map ex_qn_ids rows,
     qn_tokens_batch = map ex_qn_tokens rows,
     ans_span_batch = map ex_ans_span rows,
     ans_tokens_batch = map ex_ans_tokens rows,
     feats_batch = map ex_feats rows,
     char_ids_batch = map ex_char_ids rows,
     commonQ_mask_batch = map ex_commonQ_mask rows,
     commonQ_emb_indices_batch = map ex_commonQ_emb_indices rows,
     charQ_ids_batch = map ex_charQ_ids rows,
     commonC_mask_batch = map ex_commonC_mask rows,
     commonC_emb_indices_batch = map ex_commonC_emb_indices rows\<rparr>"

text \<open>
  The pseudo-random generator is a supply of natural numbers \<open>draws\<close> read at a moving
  position. \<open>random.shuffle\<close> walks \<open>i\<close> from the last index down to 1 and swaps
  \<open>x[i]\<close> with \<open>x[j]\<close> for a drawn \<open>j\<close> in \<open>0..i\<close>; the draw is reduced modulo
  \<open>i + 1\<close>, so each of these indices can be chosen.
\<close>

fun shuffle_loop :: "(nat \<Rightarrow> nat) \<Rightarrow> nat \<Rightarrow> 'a list \<Rightarrow> nat \<Rightarrow> 'a list \<times> nat" where
  "shuffle_loop draws 0 x pos = (x, pos)"
| "shuffle_loop draws (Suc k) x pos =
     (let i = Suc k; j = draws pos mod (i + 1)
      in shuffle_loop draws k (x[i := x ! j, j := x ! i]) (Suc pos))"

definition shuffle :: "(nat \<Rightarrow> nat) \<Rightarrow> 'a list \<Rightarrow> nat \<Rightarrow> 'a list \<times> nat" where
  "shuffle draws x pos = shuffle_loop draws (length x - 1) x pos"

text \<open>
  \<open>refill_batches\<close> mutates the list \<open>batches\<close>, the three files and the generator of
  random numbers; the model returns their new values. \<open>xrange\<close> with step 0 raises
  \<open>ValueError\<close>.
\<close>

definition refill_batches ::
  "params \<Rightarrow> (nat \<Rightarrow> nat) \<Rightarrow> columns list \<Rightarrow> pyfile \<Rightarrow> pyfile \<Rightarrow> pyfile \<Rightarrow> nat
     \<Rightarrow> error + (columns list \<times> pyfile \<times> pyfile \<times> pyfile \<times> nat)" where
  "refill_batches P draws batches context_file qn_file ans_file pos =
     (let (context_line, context_file1) = readline context_file;
          (qn_line, qn_file1) = readline qn_file;
          (ans_line, ans_file1) = readline ans_file
      in case refill_loop P context_line qn_line ans_line
                context_file1 qn_file1 ans_file1 [] of
           Inl e \<Rightarrow> Inl e
         | Inr (examples, context_file', qn_file', ans_file') \<Rightarrow>
             (let examples = sort_key (\<lambda>e. length (ex_qn_ids e)) examples
              in if batch_size P = 0 then Inl ValueError
                 else
                   (let batches' = batches @
                          map (\<lambda>batch_start.
                                 zip_star (take (batch_size P) (drop batch_start examples)))
                              (xrange 0 (length examples) (batch_size P));
                        (batches'', pos') = shuffle draws batches' pos
                    in Inr (batches'', context_file', qn_file', ans_file', pos'))))"

subsection \<open>The class \<open>Batch\<close> and the padding of one batch (lines 317 to 352)\<close>

text \<open>
  The attributes of \<open>Batch\<close> under their own names; the attribute \<open>batch_size\<close> is
  \<open>batch_size_attr\<close>, the name \<open>batch_size\<close> being the argument of the generator.
  A numpy array is the nested list it is made from.
\<close>

record Batch =
  context_ids :: "int list list"
  context_mask :: "int list list"
  context_tokens :: "string list list"
  qn_ids :: "int list list"
  qn_mask :: "int list list"
  qn_tokens :: "string list list"
  ans_span :: "int list list"
  ans_tokens :: "string list list"
  uuids :: "string list option"
  batch_size_attr :: nat
  feats :: "rat list list list"
  char_ids :: "int list list list"
  char_mask :: "int list list list"
  charQ_ids :: "int list list list"
  charQ_mask :: "int list list list"
  commonQ_mask :: "bool list list"
  commonQ_emb_indices :: "int list list"
  commonC_mask :: "bool list list"
  commonC_emb_indices :: "int list list"

definition bind_result :: "error + 'a \<Rightarrow> ('a \<Rightarrow> error + 'b) \<Rightarrow> error + 'b" where
  "bind_result r f = (case r of Inl e \<Rightarrow> Inl e | Inr x \<Rightarrow> f x)"

text \<open>\<open>(ids != PAD_ID).astype(np.int32)\<close>, element by element.\<close>

definition not_pad :: "int \<Rightarrow> int \<Rightarrow> int" where
  "not_pad pad x = (if x \<noteq> pad then 1 else 0)"

text \<open>The body of the generator's loop from the \<open>pop\<close> to the \<open>yield\<close>.\<close>

definition make_batch :: "params \<Rightarrow> columns \<Rightarrow> error + Batch" where
  "make_batch P b =
     bind_result (padded (PAD_ID P) (qn_ids_batch b) (question_len P)) (\<lambda>qn_ids'.
     bind_result (padded (PAD_ID P) (context_ids_batch b) (context_len P)) (\<lambda>context_ids'.
     let qn_mask' = map (map (not_pad (PAD_ID P))) qn_ids';
         context_mask' = map (map (not_pad (PAD_ID P))) context_ids';
         ans_span' = ans_span_batch b
     in
     bind_result (padded2 (rat_of_int (PAD_ID P)) (feats_batch b) (num_feats P)
                    (context_len P)) (\<lambda>feats'.
     bind_result (padded2 (PAD_ID P) (char_ids_batch b) (word_len P)
                    (context_len P)) (\<lambda>char_ids'.
     let char_mask' = map (map (map (not_pad (PAD_ID P)))) char_ids' in
     bind_result (padded2 (PAD_ID P) (charQ_ids_batch b) (word_len P)
                    (question_len P)) (\<lambda>charQ_ids'.
     let charQ_mask' = map (map (map (not_pad (PAD_ID P)))) charQ_ids' in
     bind_result (paddedBool (commonQ_mask_batch b) (question_len P)) (\<lambda>commonQ_mask'.
     bind_result (padded (PAD_ID P) (commonQ_emb_indices_batch b) (question_len P))
       (\<lambda>commonQ_emb_indices'.
     bind_result (paddedBool (commonC_mask_batch b) (context_len P)) (\<lambda>commonC_mask'.
     bind_result (padded (PAD_ID P) (commonC_emb_indices_batch b) (context_len P))
       (\<lambda>commonC_emb_indices'.
     Inr \<lparr>context_ids = context_ids',
          context_mask = context_mask',
          context_tokens = context_tokens_batch b,
          qn_ids = qn_ids',
          qn_mask = qn_mask',
          qn_tokens = qn_tokens_batch b,
          ans_span = ans_span',
          ans_tokens = ans_tokens_batch b,
          uuids = None,
          batch_size_attr = length (context_tokens_batch b),
          feats = feats',
          char_ids = char_ids',
          char_mask = char_mask',
          charQ_ids = charQ_ids',
          charQ_mask = charQ_mask',
          commonQ_mask = commonQ_mask',
          commonQ_emb_indices = commonQ_emb_indices',
          commonC_mask = commonC_mask',
          commonC_emb_indices = commonC_emb_indices'\<rparr>)))))))))"

subsection \<open>The generator \<open>get_batch_generator\<close>\<close>

text \<open>
  What a generator does when it is run to its end: it yields values one after the
  other, then either returns (\<open>Done\<close>) or raises.
\<close>

datatype 'a gen = Done | Raise error | Yield 'a "'a gen"

fun yielded :: "'a gen \<Rightarrow> 'a list" where
  "yielded Done = []"
| "yielded (Raise e) = []"
| "yielded (Yield x g) = x # yielded g"

fun raised :: "'a gen \<Rightarrow> error option" where
  "raised Done = None"
| "raised (Raise e) = Some e"
| "raised (Yield x g) = raised g"

subsection \<open>The loop, pass by pass\<close>

declare refill_loop.simps [simp del]

text \<open>The condition of the \<open>while\<close> loop, and the loop unfolded one pass at a time.\<close>

definition loop_guard :: "string \<Rightarrow> string \<Rightarrow> string \<Rightarrow> bool" where
  "loop_guard cl ql al \<longleftrightarrow> cl \<noteq> [] \<and> ql \<noteq> [] \<and> al \<noteq> []"

lemma refill_loop_stop:
  "\<not> loop_guard cl ql al \<Longrightarrow> refill_loop P cl ql al cf qf af exs = Inr (exs, cf, qf, af)"
  by (subst refill_loop.simps) (auto simp: loop_guard_def)

lemma refill_loop_error:
  "loop_guard cl ql al \<Longrightarrow> loop_body P cl ql al = Inl e \<Longrightarrow>
   refill_loop P cl ql al cf qf af exs = Inl e"
  by (subst refill_loop.simps) (simp add: loop_guard_def)

lemma refill_loop_skip:
  "loop_guard cl ql al \<Longrightarrow> loop_body P cl ql al = Inr None \<Longrightarrow>
   refill_loop P cl ql al cf qf af exs =
   refill_loop P (fst (readline cf)) (fst (readline qf)) (fst (readline af))
     (snd (readline cf)) (snd (readline qf)) (snd (readline af)) exs"
  by (subst refill_loop.simps) (simp add: loop_guard_def split: prod.splits)

lemma refill_loop_full:
  "loop_guard cl ql al \<Longrightarrow> loop_body P cl ql al = Inr (Some ex) \<Longrightarrow>
   Suc (length exs) = batch_size P * 160 \<Longrightarrow>
   refill_loop P cl ql al cf qf af exs =
   Inr (exs @ [ex], snd (readline cf), snd (readline qf), snd (readline af))"
  by (subst refill_loop.simps) (simp add: loop_guard_def split: prod.splits)

lemma refill_loop_more:
  "loop_guard cl ql al \<Longrightarrow> loop_body P cl ql al = Inr (Some ex) \<Longrightarrow>
   Suc (length exs) \<noteq> batch_size P * 160 \<Longrightarrow>
   refill_loop P cl ql al cf qf af exs =
   refill_loop P (fst (readline cf)) (fst (readline qf)) (fst (readline af))
     (snd (readline cf)) (snd (readline qf)) (snd (readline af)) (exs @ [ex])"
  by (subst refill_loop.simps) (simp add: loop_guard_def split: prod.splits)

text \<open>Induction along the passes of the loop, for a fixed configuration.\<close>

lemma refill_loop_cases [case_names stop error skip full more]:
  assumes stop: "\<And>cl ql al cf qf af exs.
      \<not> loop_guard cl ql al \<Longrightarrow> Q cl ql al cf qf af exs"
    and error: "\<And>cl ql al cf qf af exs e.
      loop_guard cl ql al \<Longrightarrow> loop_body P cl ql al = Inl e \<Longrightarrow> Q cl ql al cf qf af exs"
    and skip: "\<And>cl ql al cf qf af exs.
      loop_guard cl ql al \<Longrightarrow> loop_body P cl ql al = Inr None \<Longrightarrow>
      Q (fst (readline cf)) (fst (readline qf)) (fst (readline af))
        (snd (readline cf)) (snd (readline qf)) (snd (readline af)) exs \<Longrightarrow>
      Q cl ql al cf qf af exs"
    and full: "\<And>cl ql al cf qf af exs ex.
      loop_guard cl ql al \<Longrightarrow> loop_body P cl ql al = Inr (Some ex) \<Longrightarrow>
      Suc (length exs) = batch_size P * 160 \<Longrightarrow> Q cl ql al cf qf af exs"
    and more: "\<And>cl ql al cf qf af exs ex.
      loop_guard cl ql al \<Longrightarrow> loop_body P cl ql al = Inr (Some ex) \<Longrightarrow>
      Suc (length exs) \<noteq> batch_size P * 160 \<Longrightarrow>
      Q (fst (readline cf)) (fst (readline qf)) (fst (readline af))
        (snd (readline cf)) (snd (readline qf)) (snd (readline af)) (exs @ [ex]) \<Longrightarrow>
      Q cl ql al cf qf af exs"
  shows "Q cl ql al cf qf af exs"
proof -
  have "P' = P \<Longrightarrow> Q cl ql al cf qf af exs" for P'
  proof (induction P' cl ql al cf qf af exs rule: refill_loop.induct)
    case (1 P' cl ql al cf qf af exs)
    note PP = \<open>P' = P\<close>
    show ?case
    proof (cases "loop_guard cl ql al")
      case False
      then show ?thesis by (rule stop)
    next
      case True
      then have g: "cl \<noteq> [] \<and> ql \<noteq> [] \<and> al \<noteq> []" by (simp add: loop_guard_def)
      show ?thesis
      proof (cases "loop_body P cl ql al")
        case (Inl e)
        with True show ?thesis by (rule error)
      next
        case (Inr r)
        then have Inr': "loop_body P' cl ql al = Inr r" using PP by simp
        show ?thesis
        proof (cases r)
          case None
          have "Q (fst (readline cf)) (fst (readline qf)) (fst (readline af))
                  (snd (readline cf)) (snd (readline qf)) (snd (readline af)) exs"
            using "1.IH"(1)[OF g Inr' refl prod.collapse refl
                             prod.collapse refl prod.collapse None PP] .
          with True Inr None show ?thesis by (auto intro: skip)
        next
          case (Some ex)
          show ?thesis
          proof (cases "Suc (length exs) = batch_size P * 160")
            case True
            with \<open>loop_guard cl ql al\<close> Inr Some show ?thesis by (auto intro: full)
          next
            case False
            then have nf: "length (exs @ [ex]) \<noteq> batch_size P' * 160" using PP by simp
            have "Q (fst (readline cf)) (fst (readline qf)) (fst (readline af))
                  (snd (readline cf)) (snd (readline qf)) (snd (readline af)) (exs @ [ex])"
              using "1.IH"(2)[OF g Inr' refl prod.collapse refl
                             prod.collapse refl prod.collapse
                             Some refl nf PP] .
            with \<open>loop_guard cl ql al\<close> Inr Some False show ?thesis by (auto intro: more)
          qed
        qed
      qed
    qed
  qed
  then show ?thesis by simp
qed

subsection \<open>Progress of a refill, and the generator's loop\<close>

lemma readline_length: "length (snd (readline f)) \<le> length f"
  by (simp add: readline_def split: list.splits)

lemma readline_nonempty: "fst (readline f) \<noteq> [] \<Longrightarrow> length (snd (readline f)) < length f"
  by (simp add: readline_def split: list.splits)

lemma refill_loop_length:
  "refill_loop P cl ql al cf qf af exs = Inr (exs', cf', qf', af') \<Longrightarrow>
   length cf' \<le> length cf"
proof (induction cl ql al cf qf af exs rule: refill_loop_cases[where P = P])
  case (stop cl ql al cf qf af exs)
  then show ?case by (simp add: refill_loop_stop)
next
  case (error cl ql al cf qf af exs e)
  then show ?case by (simp add: refill_loop_error)
next
  case (skip cl ql al cf qf af exs)
  then show ?case
    using readline_length[of cf] by (simp add: refill_loop_skip)
next
  case (full cl ql al cf qf af exs ex)
  then show ?case
    using readline_length[of cf] by (simp add: refill_loop_full)
next
  case (more cl ql al cf qf af exs ex)
  then show ?case
    using readline_length[of cf] by (simp add: refill_loop_more)
qed

lemma refill_loop_grows:
  "refill_loop P cl ql al cf qf af exs = Inr (exs', cf', qf', af') \<Longrightarrow>
   exs' \<noteq> exs \<Longrightarrow> loop_guard cl ql al"
  by (cases "loop_guard cl ql al") (auto simp: refill_loop_stop)

text \<open>Shuffling permutes.\<close>

lemma shuffle_loop_mset:
  "k < length x \<Longrightarrow> mset (fst (shuffle_loop draws k x pos)) = mset x"
proof (induction k arbitrary: x pos)
  case 0
  then show ?case by simp
next
  case (Suc k)
  let ?j = "draws pos mod (Suc k + 1)"
  have "?j < Suc k + 1" by simp
  then have j: "?j < length x" using Suc.prems by linarith
  have "mset (x[Suc k := x ! ?j, ?j := x ! Suc k]) = mset x"
    using mset_swap[OF j Suc.prems] by simp
  moreover have "k < length (x[Suc k := x ! ?j, ?j := x ! Suc k])"
    using Suc.prems by simp
  ultimately show ?case using Suc.IH by (simp add: Let_def)
qed

lemma shuffle_mset: "mset (fst (shuffle draws x pos)) = mset x"
proof (cases x)
  case Nil
  then show ?thesis by (simp add: shuffle_def)
next
  case (Cons a list)
  then show ?thesis by (simp add: shuffle_def shuffle_loop_mset)
qed

lemma shuffle_length: "length (fst (shuffle draws x pos)) = length x"
  using shuffle_mset[of draws x pos] by (metis size_mset)

lemma shuffle_set: "set (fst (shuffle draws x pos)) = set x"
  using shuffle_mset[of draws x pos] by (metis set_mset_mset)

lemma xrange_empty: "xrange 0 0 step = []"
  by (cases step) (simp_all add: xrange_def)

text \<open>A refill that leaves batches in an empty list has read a line of the context file.\<close>

lemma refill_batches_progress:
  assumes "refill_batches P draws [] cf qf af pos = Inr (b # rest, cf', qf', af', pos')"
  shows "length cf' < length cf"
proof -
  let ?cl = "fst (readline cf)" and ?ql = "fst (readline qf)" and ?al = "fst (readline af)"
  let ?cf = "snd (readline cf)" and ?qf = "snd (readline qf)" and ?af = "snd (readline af)"
  from assms obtain exs cf1 qf1 af1 where
    loop: "refill_loop P ?cl ?ql ?al ?cf ?qf ?af [] = Inr (exs, cf1, qf1, af1)"
    by (auto simp: refill_batches_def split: prod.splits sum.splits)
  let ?sorted = "sort_key (\<lambda>e. length (ex_qn_ids e)) exs"
  let ?chunks = "map (\<lambda>batch_start. zip_star (take (batch_size P) (drop batch_start ?sorted)))
                     (xrange 0 (length ?sorted) (batch_size P))"
  from assms loop have res: "b # rest = fst (shuffle draws ?chunks pos)" and cf': "cf' = cf1"
    by (auto simp: refill_batches_def Let_def split: prod.splits sum.splits if_splits)
  have "length ?chunks = length (b # rest)"
    using shuffle_length[of draws ?chunks pos] res by simp
  then have "exs \<noteq> []" by (auto simp: xrange_empty)
  with loop have "loop_guard ?cl ?ql ?al" using refill_loop_grows by blast
  then have "length ?cf < length cf"
    using readline_nonempty by (simp add: loop_guard_def)
  moreover have "length cf1 \<le> length ?cf" using refill_loop_length[OF loop] .
  ultimately show ?thesis using cf' by simp
qed

text \<open>
  The \<open>while True\<close> loop of \<open>get_batch_generator\<close> on its state: the list
  \<open>batches\<close>, the three open files and the position in the supply of random numbers.
\<close>

function gen_loop ::
  "params \<Rightarrow> (nat \<Rightarrow> nat) \<Rightarrow> columns list \<Rightarrow> pyfile \<Rightarrow> pyfile \<Rightarrow> pyfile \<Rightarrow> nat \<Rightarrow> Batch gen" where
  "gen_loop P draws batches context_file qn_file ans_file pos =
     (case (if length batches = 0
            then refill_batches P draws batches context_file qn_file ans_file pos
            else Inr (batches, context_file, qn_file, ans_file, pos)) of
        Inl e \<Rightarrow> Raise e
      | Inr (batches', context_file', qn_file', ans_file', pos') \<Rightarrow>
          (case batches' of
             [] \<Rightarrow> Done
           | b # rest \<Rightarrow>
               (case make_batch P b of
                  Inl e \<Rightarrow> Raise e
                | Inr batch \<Rightarrow>
                    Yield batch (gen_loop P draws rest context_file' qn_file' ans_file' pos'))))"
  by pat_completeness auto
termination
  apply (relation "measures [\<lambda>(P, draws, batches, cf, qf, af, pos). length cf,
                           \<lambda>(P, draws, batches, cf, qf, af, pos). length batches]")
   apply simp
  apply (auto split: if_splits dest: refill_batches_progress)
  done

text \<open>
  The generator, given the contents of the three files it opens instead of their paths.
\<close>

definition get_batch_generator ::
  "params \<Rightarrow> (nat \<Rightarrow> nat) \<Rightarrow> pyfile \<Rightarrow> pyfile \<Rightarrow> pyfile \<Rightarrow> Batch gen" where
  "get_batch_generator P draws context_file qn_file ans_file =
     gen_loop P draws [] context_file qn_file ans_file 0"

section \<open>Notions for the statements and their proofs\<close>

text \<open>The slices of lines 276 to 279, before \<open>zip(*...)\<close>.\<close>

definition chunks :: "nat \<Rightarrow> 'a list \<Rightarrow> 'a list list" where
  "chunks n xs = map (\<lambda>batch_start. take n (drop batch_start xs)) (xrange 0 (length xs) n)"

text \<open>
  \<open>chunk_of P Q b\<close>: the columns \<open>b\<close> are those of a non-empty slice of at most
  \<open>batch_size\<close> rows, sorted by question length, each with the property \<open>Q\<close>.
\<close>

definition chunk_of :: "params \<Rightarrow> (example \<Rightarrow> bool) \<Rightarrow> columns \<Rightarrow> bool" where
  "chunk_of P Q b \<longleftrightarrow>
     (\<exists>rows. rows \<noteq> [] \<and> length rows \<le> batch_size P \<and> list_all Q rows \<and>
             sorted (map (\<lambda>e. length (ex_qn_ids e)) rows) \<and> b = zip_star rows)"





section \<open>A small configuration for the worked examples\<close>

definition demo_params :: params where
  "demo_params = \<lparr>word2id = [''a'' \<mapsto> 2, ''b'' \<mapsto> 3], batch_size = 2, context_len = 2,
     question_len = 5, discard_long = False, num_feats = 2, word_len = 3,
     mcids_dict = [2 \<mapsto> 1], PAD_ID = 0, UNK_ID = 1\<rparr>"

text \<open>
  Three files of three lines each, and the two batches the generator yields from them
  when every random draw is 0.
\<close>

definition demo_context_file :: pyfile where
  "demo_context_file = [''a b c
'', ''a
'', ''b b
'']"

definition demo_qn_file :: pyfile where
  "demo_qn_file = [''a b
'', ''a
'', ''a b c
'']"

definition demo_ans_file :: pyfile where
  "demo_ans_file = [''2 2
'', ''0 0
'', ''1 1
'']"

definition demo_batch1 :: Batch where
  "demo_batch1 = \<lparr>context_ids = [[3, 3]], context_mask = [[1, 1]],
     context_tokens = [[''b'', ''b'']], qn_ids = [[2, 3, 1, 0, 0]],
     qn_mask = [[1, 1, 1, 0, 0]], qn_tokens = [[''a'', ''b'', ''c'']],
     ans_span = [[1, 1]], ans_tokens = [[''b'']], uuids = None,
     batch_size_attr = 1, feats = [[[1, 1], [1, 1]]],
     char_ids = [[[3, 0, 0], [3, 0, 0]]],
     char_mask = [[[1, 0, 0], [1, 0, 0]]],
     charQ_ids = [[[2, 0, 0], [3, 0, 0], [4, 0, 0], [0, 0, 0], [0, 0, 0]]],
     charQ_mask = [[[1, 0, 0], [1, 0, 0], [1, 0, 0], [0, 0, 0], [0, 0, 0]]],
     commonQ_mask = [[True, False, False, False, False]],
     commonQ_emb_indices = [[1, 0, 0, 0, 0]],
     commonC_mask = [[False, False]], commonC_emb_indices = [[0, 0]]\<rparr>"

definition demo_batch2 :: Batch where
  "demo_batch2 = \<lparr>context_ids = [[2, 0], [2, 3]], context_mask = [[1, 0], [1, 1]],
     context_tokens = [[''a''], [''a'', ''b'', ''c'']],
     qn_ids = [[2, 0, 0, 0, 0], [2, 3, 0, 0, 0]],
     qn_mask = [[1, 0, 0, 0, 0], [1, 1, 0, 0, 0]],
     qn_tokens = [[''a''], [''a'', ''b'']], ans_span = [[0, 0], [2, 2]],
     ans_tokens = [[''a''], [''c'']], uuids = None,
     batch_size_attr = 2, feats = [[[1, 1], [0, 0]], [[1, 1], [1, 1]]],
     char_ids = [[[2, 0, 0], [0, 0, 0]], [[2, 0, 0], [3, 0, 0]]],
     char_mask = [[[1, 0, 0], [0, 0, 0]], [[1, 0, 0], [1, 0, 0]]],
     charQ_ids =
       [[[2, 0, 0], [0, 0, 0], [0, 0, 0], [0, 0, 0], [0, 0, 0]],
        [[2, 0, 0], [3, 0, 0], [0, 0, 0], [0, 0, 0], [0, 0, 0]]],
     charQ_mask =
       [[[1, 0, 0], [0, 0, 0], [0, 0, 0], [0, 0, 0], [0, 0, 0]],
        [[1, 0, 0], [1, 0, 0], [0, 0, 0], [0, 0, 0], [0, 0, 0]]],
     commonQ_mask =
       [[True, False, False, False, False],
        [True, False, False, False, False]],
     commonQ_emb_indices = [[1, 0, 0, 0, 0], [1, 0, 0, 0, 0]],
     commonC_mask = [[True, False], [True, False]],
     commonC_emb_indices = [[1, 0], [1, 0]]\<rparr>"

lemma demo_run:
  "get_batch_generator demo_params (\<lambda>_. 0) demo_context_file demo_qn_file demo_ans_file
     = Yield demo_batch1 (Yield demo_batch2 Done)"
  by code_simp

text \<open>The example assembled from the first line of each of the three files.\<close>

definition demo_example :: example where
  "demo_example = \<lparr>ex_context_ids = [2, 3], ex_context_tokens = [''a'', ''b'', ''c''],
     ex_qn_ids = [2, 3], ex_qn_tokens = [''a'', ''b''],
     ex_ans_span = [2, 2], ex_ans_tokens = [''c''],
     ex_feats = [[1, 1], [1, 1]], ex_char_ids = [[2, 0, 0], [3, 0, 0]],
     ex_commonQ_mask = [True, False], ex_commonQ_emb_indices = [1, 0],
     ex_charQ_ids = [[2, 0, 0], [3, 0, 0]],
     ex_commonC_mask = [True, False], ex_commonC_emb_indices = [1, 0]\<rparr>"

lemma demo_loop_body:
  "loop_body demo_params (demo_context_file ! 0) (demo_qn_file ! 0) (demo_ans_file ! 0)
     = Inr (Some demo_example)"
  by code_simp

text \<open>The same configuration with \<open>discard_long\<close> set, and the batch it yields.\<close>

definition demo_params_discard :: params where
  "demo_params_discard = demo_params\<lparr>discard_long := True\<rparr>"



lemma demo_loop_body_discard:
  "loop_body demo_params_discard (demo_context_file ! 0) (demo_qn_file ! 0)
     (demo_ans_file ! 0) = Inr None"
  by code_simp



section \<open>Feature extraction\<close>

subsection \<open>Exact match\<close>

lemma sum_indicator_count:
  "sum_list (map (\<lambda>q. if t = q then (1::int) else 0) qs) = int (count_list qs t)"
  by (induction qs) auto

text \<open>
  Claim C4. The exact-match feature of a context token \<open>t\<close> is 1 if and only if \<open>t\<close>
  occurs in the question token sequence exactly once (by string equality); it is 0 when
  \<open>t\<close> occurs there twice or more and 0 when it does not occur.
\<close>

theorem match_orig_exactly_once:
  "match_orig ctx qn =
     map (\<lambda>t. if count_list qn t = 1 then 1 else 0) ctx"
  by (simp add: match_orig_def match_flag_def sum_indicator_count)

theorem match_orig_exactly_once_witness:
  "match_orig [''the'', ''cat'', ''sat''] [''the'', ''cat'', ''the''] = [0, 1, 0]"
  using match_orig_exactly_once[of "[''the'', ''cat'', ''sat'']" "[''the'', ''cat'', ''the'']"]
  by simp

subsection \<open>Term frequency\<close>
















text \<open>
  The claim as stated, with the exact value of the formula, fails: for one b among seven
  a the feature of b is the double 0.48571428571428577, which is neither 17/35, the
  exact value of \<open>0.4 + 0.6 * 1 / 7\<close>, nor the double nearest to it.
\<close>

theorem tf_exact_counterexample:
  "tf [''b'', ''a'', ''a'', ''a'', ''a'', ''a'', ''a'', ''a'']
     = Inr [273432834518923 / 562949953421312, 1, 1, 1, 1, 1, 1, 1]
   \<and> (273432834518923 / 562949953421312 :: rat) \<noteq> 4 / 10 + 6 / 10 * 1 / 7
   \<and> (273432834518923 / 562949953421312 :: rat) \<noteq> double (4 / 10 + 6 / 10 * 1 / 7)"
  by code_simp

subsection \<open>Character ids\<close>

lemma sentence_to_token_ids_eq:
  "sentence_to_token_ids (UNK_ID P) s (word2id P) =
     (split_by_whitespace s, word_ids P (split_by_whitespace s))"
  by (simp add: sentence_to_token_ids_def word_ids_def Let_def)

lemma word_ids_length: "length (word_ids P toks) = length toks"
  by (simp add: word_ids_def)

lemma pad_rows_pos:
  "0 < n \<Longrightarrow> pad_rows f rows n = Inr (map (\<lambda>r. r @ replicate (n - length r) f) rows)"
  by (simp add: pad_rows_def)

lemma pad_rows_length: "pad_rows f rows n = Inr r \<Longrightarrow> length r = length rows"
  by (auto simp: pad_rows_def split: sum.splits if_splits)

lemma char_ids_of_length: "char_ids_of P toks = Inr r \<Longrightarrow> length r = length toks"
  by (auto simp: char_ids_of_def padded_def Let_def dest: pad_rows_length)

lemma tf_length: "tf ctx = Inr tfs \<Longrightarrow> length tfs = length ctx"
  by (auto simp: tf_def Let_def split: sum.splits)

lemma zip_feats_length: "length (zip_feats tfs ms) = min (length tfs) (length ms)"
  by (simp add: zip_feats_def)

lemma match_orig_length: "length (match_orig ctx qn) = length ctx"
  by (simp add: match_orig_def)

text \<open>
  Claim C9, as amended. The per-token character ids are the ids of the bytes of the
  lower-cased token under the character table, with \<open>UNK_ID\<close> for a byte outside the
  table, cut to \<open>word_len\<close>; and (for \<open>word_len > 0\<close>) they are padded with
  \<open>PAD_ID\<close> to exactly \<open>word_len\<close> entries already when they are extracted (lines
  187 and 191), so every token's sequence has length \<open>word_len\<close>.
\<close>

theorem char_ids_padded_at_extraction:
  assumes "0 < word_len P"
  shows "char_ids_of P toks =
           Inr (map (\<lambda>tok.
                  take (word_len P)
                    (map (\<lambda>c. case map_of char2id (lower_char c) of
                                 Some i \<Rightarrow> i | None \<Rightarrow> UNK_ID P) tok)
                  @ replicate (word_len P - length tok) (PAD_ID P)) toks)
         \<and> (\<forall>tok. length (take (word_len P)
                    (map (\<lambda>c. case map_of char2id (lower_char c) of
                                 Some i \<Rightarrow> i | None \<Rightarrow> UNK_ID P) tok)
                  @ replicate (word_len P - length tok) (PAD_ID P)) = word_len P)"
  using assms
  by (auto simp: char_ids_of_def padded_def Let_def pad_rows_pos tok_char_ids_def lower_def
        comp_def min_def)

theorem char_ids_padded_at_extraction_witness:
  "0 < word_len demo_params \<and>
   char_ids_of demo_params [''Ab'', ''abcd''] = Inr [[2, 3, 0], [2, 3, 4]]"
proof -
  have h: "0 < word_len demo_params" by (simp add: demo_params_def)
  have e: "map (\<lambda>tok.
                  take (word_len demo_params)
                    (map (\<lambda>c. case map_of char2id (lower_char c) of
                                 Some i \<Rightarrow> i | None \<Rightarrow> UNK_ID demo_params) tok)
                  @ replicate (word_len demo_params - length tok) (PAD_ID demo_params))
             [''Ab'', ''abcd''] = [[2, 3, 0], [2, 3, 4]]"
    by code_simp
  show ?thesis
    using char_ids_padded_at_extraction[OF h, of "[''Ab'', ''abcd'']"] h e by simp
qed

text \<open>
  The claim as stated fails: for the token a and \<open>word_len = 3\<close> the extracted
  sequence has three entries, not \<open>min(1, 3)\<close>.
\<close>

theorem char_ids_unpadded_counterexample:
  "char_ids_of demo_params [''a''] = Inr [[2, 0, 0]] \<and>
   length [2, 0, 0 :: int] \<noteq> min (length ''a'') (word_len demo_params)"
  by (simp add: demo_params_def char_ids_of_def padded_def pad_rows_def tok_char_ids_def
        lower_def lower_char_def char2id_def eval_nat_numeral)

section \<open>The assembled example\<close>

text \<open>What a pass of the loop that appends an example has computed.\<close>

lemma loop_body_SomeE:
  assumes "loop_body P cl ql al = Inr (Some e)"
  obtains span chs chqs tfs where
    "intstr_to_intlist al = Inr span"
    "char_ids_of P (split_by_whitespace cl) = Inr chs"
    "char_ids_of P (split_by_whitespace ql) = Inr chqs"
    "tf (split_by_whitespace cl) = Inr tfs"
    "length span = 2" "span ! 0 \<le> span ! 1"
    "discard_long P \<Longrightarrow> length (split_by_whitespace ql) \<le> question_len P"
    "discard_long P \<Longrightarrow> length (split_by_whitespace cl) \<le> context_len P"
    "e = \<lparr>ex_context_ids =
            take (context_len P) (word_ids P (split_by_whitespace cl)),
          ex_context_tokens = split_by_whitespace cl,
          ex_qn_ids =
            take (question_len P) (word_ids P (split_by_whitespace ql)),
          ex_qn_tokens = split_by_whitespace ql,
          ex_ans_span = span,
          ex_ans_tokens = py_slice (split_by_whitespace cl) (span ! 0) (span ! 1 + 1),
          ex_feats = take (context_len P)
                       (zip_feats tfs (match_orig (split_by_whitespace cl)
                                                  (split_by_whitespace ql))),
          ex_char_ids = take (context_len P) chs,
          ex_commonQ_mask = take (question_len P)
            (common_mask P (word_ids P (split_by_whitespace ql))),
          ex_commonQ_emb_indices = take (question_len P)
            (common_emb_indices P (word_ids P (split_by_whitespace ql))),
          ex_charQ_ids = take (question_len P) chqs,
          ex_commonC_mask = take (context_len P)
            (common_mask P (word_ids P (split_by_whitespace cl))),
          ex_commonC_emb_indices = take (context_len P)
            (common_emb_indices P (word_ids P (split_by_whitespace cl)))\<rparr>"
proof -
  let ?ctx = "split_by_whitespace cl" and ?qn = "split_by_whitespace ql"
  let ?cids = "word_ids P ?ctx" and ?qids = "word_ids P ?qn"
  note sc = sentence_to_token_ids_eq[of P cl] and sq = sentence_to_token_ids_eq[of P ql]
  have lc: "length ?cids = length ?ctx" and lq: "length ?qids = length ?qn"
    by (simp_all add: word_ids_length)
  from assms sc sq obtain span where span: "intstr_to_intlist al = Inr span"
    by (cases "intstr_to_intlist al") (simp_all add: loop_body_def)
  from assms sc sq span obtain chs where chs: "char_ids_of P ?ctx = Inr chs"
    by (cases "char_ids_of P ?ctx") (simp_all add: loop_body_def)
  from assms sc sq span chs obtain chqs where chqs: "char_ids_of P ?qn = Inr chqs"
    by (cases "char_ids_of P ?qn") (simp_all add: loop_body_def)
  from assms sc sq span chs chqs obtain tfs where tfs: "tf ?ctx = Inr tfs"
    by (cases "tf ?ctx") (simp_all add: loop_body_def Let_def)
  note unfolded = assms span chs chqs tfs
  note defs = loop_body_def sc sq Let_def
  have l2: "length span = 2"
    using unfolded by (auto simp: defs split: if_splits)
  have ord: "span ! 0 \<le> span ! 1"
    using unfolded l2 by (auto simp: defs split: if_splits)
  have dq: "discard_long P \<Longrightarrow> length ?qn \<le> question_len P"
    using unfolded l2 ord lq by (auto simp: defs split: if_splits)
  have dc: "discard_long P \<Longrightarrow> length ?ctx \<le> context_len P"
    using unfolded l2 ord lc by (auto simp: defs split: if_splits)
  have lens: "length chs = length ?cids" "length chqs = length ?qids"
    "length (zip_feats tfs (match_orig ?ctx ?qn)) = length ?cids"
    "length (common_mask P ?qids) = length ?qids" "length (common_mask P ?cids) = length ?cids"
    "length (common_emb_indices P ?qids) = length ?qids"
    "length (common_emb_indices P ?cids) = length ?cids"
    using char_ids_of_length[OF chs] char_ids_of_length[OF chqs] tf_length[OF tfs] lc lq
    by (simp_all add: zip_feats_length match_orig_length common_mask_def common_emb_indices_def)
  have "e = \<lparr>ex_context_ids = take (context_len P) ?cids,
          ex_context_tokens = ?ctx,
          ex_qn_ids = take (question_len P) ?qids,
          ex_qn_tokens = ?qn,
          ex_ans_span = span,
          ex_ans_tokens = py_slice ?ctx (span ! 0) (span ! 1 + 1),
          ex_feats = take (context_len P) (zip_feats tfs (match_orig ?ctx ?qn)),
          ex_char_ids = take (context_len P) chs,
          ex_commonQ_mask = take (question_len P) (common_mask P ?qids),
          ex_commonQ_emb_indices = take (question_len P) (common_emb_indices P ?qids),
          ex_charQ_ids = take (question_len P) chqs,
          ex_commonC_mask = take (context_len P) (common_mask P ?cids),
          ex_commonC_emb_indices = take (context_len P) (common_emb_indices P ?cids)\<rparr>"
    using unfolded l2 ord lens
    by (cases "question_len P < length ?qids"; cases "context_len P < length ?cids")
       (auto simp: defs split: if_splits)
  with span chs chqs tfs l2 ord dq dc show ?thesis by (rule that)
qed

section \<open>From the loop body to the yielded batches\<close>

text \<open>
  A property \<open>Q\<close> of every example that a pass of the loop appends holds of every
  row of every batch in \<open>batches\<close>, and every yielded \<open>Batch\<close> is made of such a
  batch.
\<close>

declare gen_loop.simps [simp del]

lemma refill_loop_all:
  assumes body: "\<And>cl ql al e. loop_body P cl ql al = Inr (Some e) \<Longrightarrow> Q e"
  shows "refill_loop P cl ql al cf qf af exs = Inr (exs', cf', qf', af') \<Longrightarrow>
         list_all Q exs \<Longrightarrow> list_all Q exs'"
proof (induction cl ql al cf qf af exs rule: refill_loop_cases[where P = P])
  case (stop cl ql al cf qf af exs)
  then show ?case by (simp add: refill_loop_stop)
next
  case (error cl ql al cf qf af exs e)
  then show ?case by (simp add: refill_loop_error)
next
  case (skip cl ql al cf qf af exs)
  then show ?case by (simp add: refill_loop_skip)
next
  case (full cl ql al cf qf af exs ex)
  then show ?case using body by (auto simp: refill_loop_full)
next
  case (more cl ql al cf qf af exs ex)
  then show ?case using body by (simp add: refill_loop_more)
qed

lemma xrange_starts:
  assumes "0 < step" "k \<in> set (xrange 0 n step)"
  shows "k < n"
proof -
  from assms obtain j where j: "j < (n + step - 1) div step" and k: "k = j * step"
    by (auto simp: xrange_def)
  from j have "Suc j * step \<le> ((n + step - 1) div step) * step"
    by (intro mult_le_mono1) simp
  also have "\<dots> \<le> n + step - 1" by (rule div_times_less_eq_dividend)
  finally have "j * step + step \<le> n + step - 1" by simp
  with assms(1) show ?thesis using k by linarith
qed

lemma refill_batches_chunks:
  assumes body: "\<And>cl ql al e. loop_body P cl ql al = Inr (Some e) \<Longrightarrow> Q e"
    and refill: "refill_batches P draws [] cf qf af pos = Inr (bs, cf', qf', af', pos')"
  shows "list_all (chunk_of P Q) bs"
proof -
  let ?cl = "fst (readline cf)" and ?ql = "fst (readline qf)" and ?al = "fst (readline af)"
  let ?cf = "snd (readline cf)" and ?qf = "snd (readline qf)" and ?af = "snd (readline af)"
  from refill obtain exs cf1 qf1 af1 where
    loop: "refill_loop P ?cl ?ql ?al ?cf ?qf ?af [] = Inr (exs, cf1, qf1, af1)"
    by (auto simp: refill_batches_def split: prod.splits sum.splits)
  have Qexs: "list_all Q exs"
    using refill_loop_all[where Q = Q, OF body loop] by simp
  let ?key = "\<lambda>e. length (ex_qn_ids e)"
  let ?sorted = "sort_key ?key exs"
  let ?chunks = "map (\<lambda>batch_start. zip_star (take (batch_size P) (drop batch_start ?sorted)))
                     (xrange 0 (length ?sorted) (batch_size P))"
  from refill loop have bs: "bs = fst (shuffle draws ?chunks pos)" and pos: "0 < batch_size P"
    by (auto simp: refill_batches_def Let_def split: prod.splits sum.splits if_splits)
  have "chunk_of P Q b" if "b \<in> set ?chunks" for b
  proof -
    from that obtain k where k: "k \<in> set (xrange 0 (length ?sorted) (batch_size P))"
      and b: "b = zip_star (take (batch_size P) (drop k ?sorted))" by auto
    let ?rows = "take (batch_size P) (drop k ?sorted)"
    have "k < length ?sorted" using xrange_starts[OF pos k] .
    then have ne: "?rows \<noteq> []" using pos by simp
    have "set ?rows \<subseteq> set exs"
      using set_take_subset set_drop_subset by (metis order_trans set_sort)
    then have Q: "list_all Q ?rows" using Qexs by (auto simp: list_all_iff)
    have "sorted (map ?key ?sorted)" by simp
    then have "sorted (take (batch_size P) (drop k (map ?key ?sorted)))"
      by (intro sorted_wrt_take sorted_wrt_drop)
    then have "sorted (map ?key ?rows)" by (simp add: take_map drop_map)
    with ne Q b show ?thesis
      unfolding chunk_of_def by (intro exI[of _ ?rows]) simp
  qed
  then show ?thesis using bs shuffle_set[of draws ?chunks pos] by (simp add: list_all_iff)
qed

subsection \<open>The generator's loop, step by step\<close>

lemma gen_loop_raise:
  "refill_batches P draws [] cf qf af pos = Inl e \<Longrightarrow> gen_loop P draws [] cf qf af pos = Raise e"
  by (subst gen_loop.simps) simp

lemma gen_loop_done:
  "refill_batches P draws [] cf qf af pos = Inr ([], cf', qf', af', pos') \<Longrightarrow>
   gen_loop P draws [] cf qf af pos = Done"
  by (subst gen_loop.simps) simp

lemma gen_loop_error:
  "make_batch P b = Inl e \<Longrightarrow> gen_loop P draws (b # rest) cf qf af pos = Raise e"
  by (subst gen_loop.simps) simp

lemma gen_loop_yield:
  "make_batch P b = Inr B \<Longrightarrow>
   gen_loop P draws (b # rest) cf qf af pos = Yield B (gen_loop P draws rest cf qf af pos)"
  by (subst gen_loop.simps) simp

lemma gen_loop_refill:
  "refill_batches P draws [] cf qf af pos = Inr (b # rest, cf', qf', af', pos') \<Longrightarrow>
   gen_loop P draws [] cf qf af pos = gen_loop P draws (b # rest) cf' qf' af' pos'"
  by (subst gen_loop.simps, subst (2) gen_loop.simps) simp

lemma gen_loop_cases [case_names raise finished refill error yield]:
  assumes raise: "\<And>cf qf af pos e.
      refill_batches P draws [] cf qf af pos = Inl e \<Longrightarrow> R [] cf qf af pos"
    and finished: "\<And>cf qf af pos cf' qf' af' pos'.
      refill_batches P draws [] cf qf af pos = Inr ([], cf', qf', af', pos') \<Longrightarrow>
      R [] cf qf af pos"
    and refill: "\<And>cf qf af pos b rest cf' qf' af' pos'.
      refill_batches P draws [] cf qf af pos = Inr (b # rest, cf', qf', af', pos') \<Longrightarrow>
      R (b # rest) cf' qf' af' pos' \<Longrightarrow> R [] cf qf af pos"
    and error: "\<And>b rest cf qf af pos e.
      make_batch P b = Inl e \<Longrightarrow> R (b # rest) cf qf af pos"
    and yield: "\<And>b rest cf qf af pos B.
      make_batch P b = Inr B \<Longrightarrow> R rest cf qf af pos \<Longrightarrow> R (b # rest) cf qf af pos"
  shows "R batches cf qf af pos"
proof -
  have "length cf = n \<Longrightarrow> R batches cf qf af pos" for n batches cf qf af pos
  proof (induction n arbitrary: batches cf qf af pos rule: less_induct)
    case (less n batches cf qf af pos)
    have pending: "R [] cf qf af pos \<Longrightarrow> R bs cf qf af pos" for bs
    proof (induction bs)
      case Nil
      then show ?case by simp
    next
      case (Cons b rest)
      then have rest: "R rest cf qf af pos" by simp
      show ?case
      proof (cases "make_batch P b")
        case (Inl e)
        then show ?thesis by (rule error)
      next
        case (Inr B)
        then show ?thesis using rest by (rule yield)
      qed
    qed
    have empty: "R [] cf qf af pos"
    proof (cases "refill_batches P draws [] cf qf af pos")
      case (Inl e)
      then show ?thesis by (rule raise)
    next
      case (Inr r)
      obtain bs cf' qf' af' pos' where r: "r = (bs, cf', qf', af', pos')" by (cases r) auto
      show ?thesis
      proof (cases bs)
        case Nil
        with Inr r show ?thesis by (auto intro: finished)
      next
        case (Cons b rest)
        with Inr r have rf: "refill_batches P draws [] cf qf af pos
                               = Inr (b # rest, cf', qf', af', pos')" by simp
        have "length cf' < n" using refill_batches_progress[OF rf] less.prems by simp
        then have "R (b # rest) cf' qf' af' pos'" using less.IH by blast
        with rf show ?thesis by (rule refill)
      qed
    qed
    then show ?case by (rule pending)
  qed
  then show ?thesis by simp
qed

lemma gen_loop_chunks:
  assumes body: "\<And>cl ql al e. loop_body P cl ql al = Inr (Some e) \<Longrightarrow> Q e"
  shows "list_all (chunk_of P Q) batches \<Longrightarrow>
         list_all (\<lambda>B. \<exists>b. chunk_of P Q b \<and> make_batch P b = Inr B)
           (yielded (gen_loop P draws batches cf qf af pos))"
proof (induction batches cf qf af pos rule: gen_loop_cases[where P = P and draws = draws])
  case (raise cf qf af pos e)
  then show ?case by (simp add: gen_loop_raise)
next
  case (finished cf qf af pos cf' qf' af' pos')
  then show ?case by (simp add: gen_loop_done)
next
  case (refill cf qf af pos b rest cf' qf' af' pos')
  have "list_all (chunk_of P Q) (b # rest)"
    using refill_batches_chunks[where Q = Q, OF body refill(1)] .
  then show ?case using refill by (simp add: gen_loop_refill)
next
  case (error b rest cf qf af pos e)
  then show ?case by (simp add: gen_loop_error)
next
  case (yield b rest cf qf af pos B)
  then show ?case by (auto simp: gen_loop_yield)
qed

section \<open>The yielded batch\<close>


lemma bind_result_Inr:
  "bind_result r f = Inr y \<longleftrightarrow> (\<exists>x. r = Inr x \<and> f x = Inr y)"
  by (cases r) (simp_all add: bind_result_def)

lemma make_batch_fields:
  assumes "make_batch P b = Inr B"
  shows "context_tokens B = context_tokens_batch b"
    and "qn_tokens B = qn_tokens_batch b"
    and "ans_span B = ans_span_batch b"
    and "ans_tokens B = ans_tokens_batch b"
    and "batch_size_attr B = length (context_tokens_batch b)"
    and "uuids B = None"
    and "pad_rows (PAD_ID P) (qn_ids_batch b) (question_len P) = Inr (qn_ids B)"
    and "pad_rows (PAD_ID P) (context_ids_batch b) (context_len P) = Inr (context_ids B)"
    and "qn_mask B = map (map (not_pad (PAD_ID P))) (qn_ids B)"
    and "context_mask B = map (map (not_pad (PAD_ID P))) (context_ids B)"
    and "pad_rows (replicate (num_feats P) (rat_of_int (PAD_ID P))) (feats_batch b)
           (context_len P) = Inr (feats B)"
    and "pad_rows (replicate (word_len P) (PAD_ID P)) (char_ids_batch b) (context_len P)
           = Inr (char_ids B)"
    and "char_mask B = map (map (map (not_pad (PAD_ID P)))) (char_ids B)"
    and "pad_rows (replicate (word_len P) (PAD_ID P)) (charQ_ids_batch b) (question_len P)
           = Inr (charQ_ids B)"
    and "charQ_mask B = map (map (map (not_pad (PAD_ID P)))) (charQ_ids B)"
    and "pad_rows False (commonQ_mask_batch b) (question_len P) = Inr (commonQ_mask B)"
    and "pad_rows (PAD_ID P) (commonQ_emb_indices_batch b) (question_len P)
           = Inr (commonQ_emb_indices B)"
    and "pad_rows False (commonC_mask_batch b) (context_len P) = Inr (commonC_mask B)"
    and "pad_rows (PAD_ID P) (commonC_emb_indices_batch b) (context_len P)
           = Inr (commonC_emb_indices B)"
  using assms
  by (auto simp: make_batch_def bind_result_Inr Let_def padded_def paddedBool_def padded2_def)

lemma zip_star_simps:
  "context_ids_batch (zip_star rows) = map ex_context_ids rows"
  "context_tokens_batch (zip_star rows) = map ex_context_tokens rows"
  "qn_ids_batch (zip_star rows) = map ex_qn_ids rows"
  "qn_tokens_batch (zip_star rows) = map ex_qn_tokens rows"
  "ans_span_batch (zip_star rows) = map ex_ans_span rows"
  "ans_tokens_batch (zip_star rows) = map ex_ans_tokens rows"
  "feats_batch (zip_star rows) = map ex_feats rows"
  "char_ids_batch (zip_star rows) = map ex_char_ids rows"
  "commonQ_mask_batch (zip_star rows) = map ex_commonQ_mask rows"
  "commonQ_emb_indices_batch (zip_star rows) = map ex_commonQ_emb_indices rows"
  "charQ_ids_batch (zip_star rows) = map ex_charQ_ids rows"
  "commonC_mask_batch (zip_star rows) = map ex_commonC_mask rows"
  "commonC_emb_indices_batch (zip_star rows) = map ex_commonC_emb_indices rows"
  by (simp_all add: zip_star_def)





section \<open>Alignment, truncation and the answer span\<close>

text \<open>
  Claim C1, as amended. In every example assembled by the loop, before padding, the
  context-aligned fields \<open>context_ids\<close>, \<open>feats\<close>, \<open>char_ids\<close>, \<open>commonC_mask\<close>
  and \<open>commonC_emb_indices\<close> all have the length \<open>min(len(context_tokens),
  context_len)\<close>, and the question-aligned fields \<open>qn_ids\<close>, \<open>commonQ_mask\<close>,
  \<open>commonQ_emb_indices\<close> and \<open>charQ_ids\<close> all have the length
  \<open>min(len(qn_tokens), question_len)\<close>: the token lists themselves are never
  truncated, so the common length is that of the token list exactly when the side was
  not over-length.
\<close>

theorem aligned_lengths:
  assumes "loop_body P cl ql al = Inr (Some e)"
  shows "length (ex_context_ids e) = min (length (ex_context_tokens e)) (context_len P)
       \<and> length (ex_feats e) = min (length (ex_context_tokens e)) (context_len P)
       \<and> length (ex_char_ids e) = min (length (ex_context_tokens e)) (context_len P)
       \<and> length (ex_commonC_mask e) = min (length (ex_context_tokens e)) (context_len P)
       \<and> length (ex_commonC_emb_indices e)
           = min (length (ex_context_tokens e)) (context_len P)
       \<and> length (ex_qn_ids e) = min (length (ex_qn_tokens e)) (question_len P)
       \<and> length (ex_commonQ_mask e) = min (length (ex_qn_tokens e)) (question_len P)
       \<and> length (ex_commonQ_emb_indices e)
           = min (length (ex_qn_tokens e)) (question_len P)
       \<and> length (ex_charQ_ids e) = min (length (ex_qn_tokens e)) (question_len P)"
  using assms
proof (rule loop_body_SomeE)
  fix span chs chqs tfs
  assume chs: "char_ids_of P (split_by_whitespace cl) = Inr chs"
    and chqs: "char_ids_of P (split_by_whitespace ql) = Inr chqs"
    and tfs: "tf (split_by_whitespace cl) = Inr tfs"
    and e: "e = \<lparr>ex_context_ids = take (context_len P) (word_ids P (split_by_whitespace cl)),
          ex_context_tokens = split_by_whitespace cl,
          ex_qn_ids = take (question_len P) (word_ids P (split_by_whitespace ql)),
          ex_qn_tokens = split_by_whitespace ql,
          ex_ans_span = span,
          ex_ans_tokens = py_slice (split_by_whitespace cl) (span ! 0) (span ! 1 + 1),
          ex_feats = take (context_len P)
                       (zip_feats tfs (match_orig (split_by_whitespace cl)
                                                  (split_by_whitespace ql))),
          ex_char_ids = take (context_len P) chs,
          ex_commonQ_mask = take (question_len P)
            (common_mask P (word_ids P (split_by_whitespace ql))),
          ex_commonQ_emb_indices = take (question_len P)
            (common_emb_indices P (word_ids P (split_by_whitespace ql))),
          ex_charQ_ids = take (question_len P) chqs,
          ex_commonC_mask = take (context_len P)
            (common_mask P (word_ids P (split_by_whitespace cl))),
          ex_commonC_emb_indices = take (context_len P)
            (common_emb_indices P (word_ids P (split_by_whitespace cl)))\<rparr>"
  show ?thesis
    using char_ids_of_length[OF chs] char_ids_of_length[OF chqs] tf_length[OF tfs]
    by (simp add: e word_ids_length zip_feats_length match_orig_length common_mask_def
          common_emb_indices_def min.commute)
qed

theorem aligned_lengths_witness:
  "loop_body demo_params (demo_context_file ! 0) (demo_qn_file ! 0) (demo_ans_file ! 0)
     = Inr (Some demo_example)
   \<and> length (ex_context_ids demo_example)
       = min (length (ex_context_tokens demo_example)) (context_len demo_params)
   \<and> length (ex_charQ_ids demo_example)
       = min (length (ex_qn_tokens demo_example)) (question_len demo_params)"
  using aligned_lengths[OF demo_loop_body] demo_loop_body by blast

text \<open>
  The claim as stated fails for a truncated example: with \<open>context_len = 2\<close> and
  \<open>discard_long\<close> false, the context a b c keeps its three tokens and has two ids.
\<close>

theorem aligned_lengths_counterexample:
  "loop_body demo_params (demo_context_file ! 0) (demo_qn_file ! 0) (demo_ans_file ! 0)
     = Inr (Some demo_example)
   \<and> discard_long demo_params = False
   \<and> length (ex_context_ids demo_example) \<noteq> length (ex_context_tokens demo_example)"
  using demo_loop_body by (simp add: demo_example_def demo_params_def)

text \<open>Row \<open>i\<close> of a yielded batch is an example that a pass of the loop appended.\<close>

lemma gen_rows:
  assumes body: "\<And>cl ql al e. loop_body P cl ql al = Inr (Some e) \<Longrightarrow> Q e"
    and B: "B \<in> set (yielded (get_batch_generator P draws cf qf af))"
    and i: "i < batch_size_attr B"
  obtains b rows where "make_batch P b = Inr B" "b = zip_star rows" "i < length rows"
    "Q (rows ! i)" "length rows = batch_size_attr B"
proof -
  have "list_all (\<lambda>B. \<exists>b. chunk_of P Q b \<and> make_batch P b = Inr B)
          (yielded (gen_loop P draws [] cf qf af 0))"
    by (rule gen_loop_chunks[where Q = Q]) (use body in auto)
  with B obtain b where b: "chunk_of P Q b" and mk: "make_batch P b = Inr B"
    by (auto simp: get_batch_generator_def list_all_iff)
  from b obtain rows where rows: "list_all Q rows" and bz: "b = zip_star rows"
    by (auto simp: chunk_of_def)
  have len: "length rows = batch_size_attr B"
    by (simp add: make_batch_fields(5)[OF mk] bz zip_star_simps)
  from i len have il: "i < length rows" by simp
  with rows have Qi: "Q (rows ! i)" by (simp add: list_all_length)
  show thesis using mk bz il Qi len by (rule that)
qed

text \<open>
  Claim C10. For every assembled example (so with start \<open>\<le>\<close> end), the stored
  \<open>ans_span\<close> is the pair of integers parsed from the answer line and \<open>ans_tokens\<close>
  is the slice \<open>context_tokens[start : end + 1]\<close> of the untruncated context token
  list; truncation changes neither, in the example and in the yielded batch, so that an
  \<open>ans_span\<close> carried into a yielded batch can point at or beyond \<open>context_len\<close>
  (as it does in the second of the two batches of the worked example).
\<close>

theorem answer_span_untouched:
  "(loop_body P cl ql al = Inr (Some e) \<longrightarrow>
      intstr_to_intlist al = Inr (ex_ans_span e) \<and>
      length (ex_ans_span e) = 2 \<and> ex_ans_span e ! 0 \<le> ex_ans_span e ! 1 \<and>
      ex_context_tokens e = split_by_whitespace cl \<and>
      ex_ans_tokens e
        = py_slice (split_by_whitespace cl) (ex_ans_span e ! 0) (ex_ans_span e ! 1 + 1))
   \<and> (B \<in> set (yielded (get_batch_generator P draws cf qf af)) \<and> i < batch_size_attr B \<longrightarrow>
      length (ans_span B ! i) = 2 \<and> ans_span B ! i ! 0 \<le> ans_span B ! i ! 1 \<and>
      ans_tokens B ! i
        = py_slice (context_tokens B ! i) (ans_span B ! i ! 0) (ans_span B ! i ! 1 + 1))
   \<and> (\<exists>P' draws' cf' qf' af' B' j.
        B' \<in> set (yielded (get_batch_generator P' draws' cf' qf' af')) \<and>
        j < batch_size_attr B' \<and> \<not> discard_long P' \<and>
        int (context_len P') \<le> ans_span B' ! j ! 0 \<and>
        length (context_ids B' ! j) = context_len P')"
proof -
  have one: "intstr_to_intlist al = Inr (ex_ans_span e) \<and>
      length (ex_ans_span e) = 2 \<and> ex_ans_span e ! 0 \<le> ex_ans_span e ! 1 \<and>
      ex_context_tokens e = split_by_whitespace cl \<and>
      ex_ans_tokens e
        = py_slice (split_by_whitespace cl) (ex_ans_span e ! 0) (ex_ans_span e ! 1 + 1)"
    if "loop_body P cl ql al = Inr (Some e)"
    using that by (rule loop_body_SomeE) simp
  let ?Q = "\<lambda>e. length (ex_ans_span e) = 2 \<and> ex_ans_span e ! 0 \<le> ex_ans_span e ! 1 \<and>
      ex_ans_tokens e
        = py_slice (ex_context_tokens e) (ex_ans_span e ! 0) (ex_ans_span e ! 1 + 1)"
  have body: "?Q e" if "loop_body P cl ql al = Inr (Some e)" for cl ql al e
    using that by (rule loop_body_SomeE) simp
  have two: "length (ans_span B ! i) = 2 \<and> ans_span B ! i ! 0 \<le> ans_span B ! i ! 1 \<and>
      ans_tokens B ! i
        = py_slice (context_tokens B ! i) (ans_span B ! i ! 0) (ans_span B ! i ! 1 + 1)"
    if B: "B \<in> set (yielded (get_batch_generator P draws cf qf af))"
      and i: "i < batch_size_attr B"
  proof -
    from body B i obtain b rows where mk: "make_batch P b = Inr B" and bz: "b = zip_star rows"
      and il: "i < length rows" and Qi: "?Q (rows ! i)"
      by (rule gen_rows[where Q = ?Q]) blast
    note f = make_batch_fields[OF mk]
    show ?thesis using Qi il by (simp add: f bz zip_star_simps)
  qed
  have "demo_batch2 \<in> set (yielded (get_batch_generator demo_params (\<lambda>_. 0)
                                 demo_context_file demo_qn_file demo_ans_file))"
    by (simp add: demo_run)
  moreover have "1 < batch_size_attr demo_batch2" "\<not> discard_long demo_params"
    "int (context_len demo_params) \<le> ans_span demo_batch2 ! 1 ! 0"
    "length (context_ids demo_batch2 ! 1) = context_len demo_params"
    by (simp_all add: demo_batch2_def demo_params_def)
  ultimately have three: "\<exists>P' draws' cf' qf' af' B' j.
        B' \<in> set (yielded (get_batch_generator P' draws' cf' qf' af')) \<and>
        j < batch_size_attr B' \<and> \<not> discard_long P' \<and>
        int (context_len P') \<le> ans_span B' ! j ! 0 \<and>
        length (context_ids B' ! j) = context_len P'"
    by blast
  from one two three show ?thesis by blast
qed

theorem answer_span_untouched_witness:
  "loop_body demo_params (demo_context_file ! 0) (demo_qn_file ! 0) (demo_ans_file ! 0)
     = Inr (Some demo_example)
   \<and> intstr_to_intlist (demo_ans_file ! 0) = Inr [2, 2]
   \<and> ex_ans_span demo_example = [2, 2]
   \<and> ex_ans_tokens demo_example = py_slice [''a'', ''b'', ''c''] 2 3
   \<and> demo_batch2 \<in> set (yielded (get_batch_generator demo_params (\<lambda>_. 0)
                                 demo_context_file demo_qn_file demo_ans_file))
   \<and> 1 < batch_size_attr demo_batch2
   \<and> ans_span demo_batch2 ! 1 = [2, 2]
   \<and> ans_tokens demo_batch2 ! 1 = py_slice (context_tokens demo_batch2 ! 1) 2 3
   \<and> context_len demo_params = 2"
proof -
  have h2: "demo_batch2 \<in> set (yielded (get_batch_generator demo_params (\<lambda>_. 0)
                                 demo_context_file demo_qn_file demo_ans_file))"
    by (simp add: demo_run)
  have h3: "1 < batch_size_attr demo_batch2" by (simp add: demo_batch2_def)
  have v: "ex_ans_span demo_example = [2, 2]" "ans_span demo_batch2 ! 1 = [2, 2]"
    "context_len demo_params = 2"
    "split_by_whitespace (demo_context_file ! 0) = [''a'', ''b'', ''c'']"
    by (simp_all add: demo_example_def demo_batch2_def demo_params_def) code_simp
  from answer_span_untouched[of demo_params "demo_context_file ! 0" "demo_qn_file ! 0"
      "demo_ans_file ! 0" demo_example demo_batch2 "\<lambda>_. 0" demo_context_file demo_qn_file
      demo_ans_file 1] demo_loop_body h2 h3 v
  show ?thesis by simp
qed



section \<open>Malformed answer spans\<close>







section \<open>Sorting, chunking and shuffling\<close>


lemma ceil_div_step:
  assumes "0 < n" "0 < m"
  shows "(m + n - 1) div n = Suc ((m - n + n - 1) div n)"
proof (cases "m \<le> n")
  case True
  have "(m + n - 1) div n = 1"
    by (rule div_nat_eqI) (use assms True in simp_all)
  moreover have "(m - n + n - 1) div n = 0" using True assms by simp
  ultimately show ?thesis by simp
next
  case False
  then have eq: "m + n - 1 = (m - n + n - 1) + n" by simp
  have "((m - n + n - 1) + n) div n = (m - n + n - 1) div n + 1"
    using assms(1) by (intro div_add_self2) simp
  then show ?thesis by (simp only: eq Suc_eq_plus1)
qed

lemma chunks_Cons:
  assumes "0 < n" "xs \<noteq> []"
  shows "chunks n xs = take n xs # chunks n (drop n xs)"
proof -
  define f where "f = (\<lambda>k. take n (drop (k * n) xs))"
  define c' where "c' = (length xs - n + n - 1) div n"
  have c: "(length xs + n - 1) div n = Suc c'"
    unfolding c'_def using ceil_div_step[OF assms(1), of "length xs"] assms(2) by simp
  have "chunks n xs = map f [0 ..< (length xs + n - 1) div n]"
    by (simp add: chunks_def xrange_def f_def comp_def)
  also have "\<dots> = map f [0 ..< Suc c']" by (simp only: c)
  also have "[0 ..< Suc c'] = 0 # map Suc [0 ..< c']"
    by (simp only: map_Suc_upt) (simp add: upt_conv_Cons del: upt_Suc)
  also have "map f (0 # map Suc [0 ..< c']) = take n xs # map (f \<circ> Suc) [0 ..< c']"
    by (simp add: f_def)
  also have "map (f \<circ> Suc) [0 ..< c'] = chunks n (drop n xs)"
    by (simp add: chunks_def xrange_def f_def c'_def comp_def add.commute)
  finally show ?thesis .
qed

lemma chunks_Nil: "chunks n [] = []"
  by (cases n) (simp_all add: chunks_def xrange_def)

lemma chunks_induct [case_names Nil Cons]:
  assumes "0 < n" and "R []" and "\<And>xs. xs \<noteq> [] \<Longrightarrow> R (drop n xs) \<Longrightarrow> R xs"
  shows "R xs"
proof (induction "length xs" arbitrary: xs rule: less_induct)
  case less
  show ?case
  proof (cases "xs = []")
    case True
    then show ?thesis using assms(2) by simp
  next
    case False
    then have "length (drop n xs) < length xs" using assms(1) by simp
    then have "R (drop n xs)" by (rule less)
    with False show ?thesis by (rule assms(3))
  qed
qed

lemma chunks_concat:
  assumes n: "0 < n"
  shows "concat (chunks n xs) = xs"
  by (induction xs rule: chunks_induct[OF n]) (simp_all add: chunks_Nil chunks_Cons n)

lemma chunks_sizes:
  assumes n: "0 < n"
  shows "c \<in> set (chunks n xs) \<Longrightarrow> 0 < length c \<and> length c \<le> n"
proof (induction xs rule: chunks_induct[OF n])
  case 1
  then show ?case by (simp add: chunks_Nil)
next
  case (2 xs)
  then have "c = take n xs \<or> c \<in> set (chunks n (drop n xs))"
    by (simp add: chunks_Cons n)
  then show ?case using 2 n by auto
qed

text \<open>Only the last slice can be short.\<close>

lemma chunks_full_butlast:
  assumes n: "0 < n"
  shows "c \<in> set (butlast (chunks n xs)) \<Longrightarrow> length c = n"
proof (induction xs rule: chunks_induct[OF n])
  case 1
  then show ?case by (simp add: chunks_Nil)
next
  case (2 xs)
  show ?case
  proof (cases "drop n xs = []")
    case True
    with 2 show ?thesis by (simp add: chunks_Cons n chunks_Nil)
  next
    case False
    then have "n < length xs" by simp
    moreover have "chunks n (drop n xs) \<noteq> []" using False by (simp add: chunks_Cons n)
    ultimately show ?thesis using 2 by (auto simp: chunks_Cons[OF n, of xs])
  qed
qed



lemma refill_batches_result:
  assumes "refill_batches P draws batches cf qf af pos = Inr (bs, cf', qf', af', pos')"
  obtains exs where
    "refill_loop P (fst (readline cf)) (fst (readline qf)) (fst (readline af))
       (snd (readline cf)) (snd (readline qf)) (snd (readline af)) []
       = Inr (exs, cf', qf', af')"
    "0 < batch_size P"
    "bs = fst (shuffle draws
                (batches @ map zip_star
                   (chunks (batch_size P) (sort_key (\<lambda>e. length (ex_qn_ids e)) exs))) pos)"
proof -
  from assms obtain exs cf1 qf1 af1 where
    loop: "refill_loop P (fst (readline cf)) (fst (readline qf)) (fst (readline af))
       (snd (readline cf)) (snd (readline qf)) (snd (readline af)) []
       = Inr (exs, cf1, qf1, af1)"
    by (auto simp: refill_batches_def split: prod.splits sum.splits)
  from assms loop have "0 < batch_size P" "cf1 = cf'" "qf1 = qf'" "af1 = af'"
    "bs = fst (shuffle draws
                (batches @ map zip_star
                   (chunks (batch_size P) (sort_key (\<lambda>e. length (ex_qn_ids e)) exs))) pos)"
    by (auto simp: refill_batches_def Let_def chunks_def comp_def
             split: prod.splits sum.splits if_splits)
  with loop show thesis by (intro that[of exs]) simp_all
qed

section \<open>The sizes of the yielded batches\<close>




















section \<open>Order within the batches\<close>

text \<open>
  Claim C7. In a refill (of the empty list \<open>batches\<close>, as the generator calls it)
  the pool is sorted by ascending question length, the length of \<open>qn_ids\<close> after
  truncation; the sorted pool is cut into contiguous slices of \<open>batch_size\<close>, only
  the last of which can be shorter; the resulting list of batches is a permutation of
  these slices, each slice kept whole and in its order; so in every batch of the refill,
  and in every yielded batch, the question lengths (the lengths of the question token
  lists capped at \<open>question_len\<close>) are non-decreasing.
\<close>

theorem refill_sorted_chunks:
  "(refill_batches P draws [] cf qf af pos = Inr (bs, cf', qf', af', pos') \<longrightarrow>
      (\<exists>pool sorted_pool.
           refill_loop P (fst (readline cf)) (fst (readline qf)) (fst (readline af))
             (snd (readline cf)) (snd (readline qf)) (snd (readline af)) []
             = Inr (pool, cf', qf', af') \<and>
           mset sorted_pool = mset pool \<and>
           sorted (map (\<lambda>e. length (ex_qn_ids e)) sorted_pool) \<and>
           concat (chunks (batch_size P) sorted_pool) = sorted_pool \<and>
           (\<forall>c \<in> set (chunks (batch_size P) sorted_pool).
              0 < length c \<and> length c \<le> batch_size P) \<and>
           (\<forall>c \<in> set (butlast (chunks (batch_size P) sorted_pool)).
              length c = batch_size P) \<and>
           mset bs = mset (map zip_star (chunks (batch_size P) sorted_pool)) \<and>
           (\<forall>b \<in> set bs. sorted (map length (qn_ids_batch b)))))
   \<and> (B \<in> set (yielded (get_batch_generator P draws cf qf af)) \<longrightarrow>
        sorted (map (\<lambda>t. min (length t) (question_len P)) (qn_tokens B)))"
proof -
  let ?key = "\<lambda>e. length (ex_qn_ids e)"
  have one: "\<exists>pool sorted_pool.
           refill_loop P (fst (readline cf)) (fst (readline qf)) (fst (readline af))
             (snd (readline cf)) (snd (readline qf)) (snd (readline af)) []
             = Inr (pool, cf', qf', af') \<and>
           mset sorted_pool = mset pool \<and>
           sorted (map (\<lambda>e. length (ex_qn_ids e)) sorted_pool) \<and>
           concat (chunks (batch_size P) sorted_pool) = sorted_pool \<and>
           (\<forall>c \<in> set (chunks (batch_size P) sorted_pool).
              0 < length c \<and> length c \<le> batch_size P) \<and>
           (\<forall>c \<in> set (butlast (chunks (batch_size P) sorted_pool)).
              length c = batch_size P) \<and>
           mset bs = mset (map zip_star (chunks (batch_size P) sorted_pool)) \<and>
           (\<forall>b \<in> set bs. sorted (map length (qn_ids_batch b)))"
    if refill: "refill_batches P draws [] cf qf af pos = Inr (bs, cf', qf', af', pos')"
  proof -
    from refill obtain exs where
      loop: "refill_loop P (fst (readline cf)) (fst (readline qf)) (fst (readline af))
         (snd (readline cf)) (snd (readline qf)) (snd (readline af)) []
         = Inr (exs, cf', qf', af')"
      and n: "0 < batch_size P"
      and bs: "bs = fst (shuffle draws
                  ([] @ map zip_star (chunks (batch_size P) (sort_key ?key exs))) pos)"
      by (rule refill_batches_result)
    let ?sp = "sort_key ?key exs"
    have srt: "sorted (map ?key ?sp)" by simp
    have inner: "sorted (map length (qn_ids_batch (zip_star c)))"
      if "c \<in> set (chunks (batch_size P) ?sp)" for c
    proof -
      from that obtain k where c: "c = take (batch_size P) (drop k ?sp)"
        by (auto simp: chunks_def)
      have "sorted (take (batch_size P) (drop k (map ?key ?sp)))"
        using srt by (intro sorted_wrt_take sorted_wrt_drop)
      then show ?thesis by (simp add: c zip_star_simps take_map drop_map comp_def)
    qed
    have setbs: "set bs = zip_star ` set (chunks (batch_size P) ?sp)"
      by (simp add: bs shuffle_set)
    have msetbs: "mset bs = mset (map zip_star (chunks (batch_size P) ?sp))"
      by (simp add: bs shuffle_mset)
    have all: "\<forall>b \<in> set bs. sorted (map length (qn_ids_batch b))"
      using inner by (auto simp: setbs)
    show ?thesis
      apply (rule exI[of _ exs], rule exI[of _ ?sp])
      using loop srt chunks_concat[OF n, of ?sp] chunks_sizes[OF n, of _ ?sp]
        chunks_full_butlast[OF n, of _ ?sp] msetbs all
      by simp
  qed
  let ?Q = "\<lambda>e. length (ex_qn_ids e) = min (length (ex_qn_tokens e)) (question_len P)"
  have body: "?Q e" if "loop_body P cl ql al = Inr (Some e)" for cl ql al e
    using that by (rule loop_body_SomeE) (simp add: word_ids_length min.commute)
  have two: "sorted (map (\<lambda>t. min (length t) (question_len P)) (qn_tokens B))"
    if B: "B \<in> set (yielded (get_batch_generator P draws cf qf af))"
  proof -
    have "list_all (\<lambda>B. \<exists>b. chunk_of P ?Q b \<and> make_batch P b = Inr B)
            (yielded (gen_loop P draws [] cf qf af 0))"
      by (rule gen_loop_chunks[where Q = ?Q]) (use body in auto)
    with B obtain rows where Q: "list_all ?Q rows"
      and srt: "sorted (map ?key rows)" and mk: "make_batch P (zip_star rows) = Inr B"
      by (auto simp: get_batch_generator_def list_all_iff chunk_of_def)
    have "map (\<lambda>t. min (length t) (question_len P)) (qn_tokens B) = map ?key rows"
      using Q by (simp add: make_batch_fields(2)[OF mk] zip_star_simps list_all_iff)
    with srt show ?thesis by simp
  qed
  from one two show ?thesis by blast
qed

lemma demo_refill:
  "(case refill_batches demo_params (\<lambda>_. 0) [] demo_context_file demo_qn_file
           demo_ans_file 0 of
      Inl e \<Rightarrow> False
    | Inr (bs, r) \<Rightarrow> map (\<lambda>b. map length (qn_ids_batch b)) bs = [[3], [1, 2]])"
  by code_simp

theorem refill_sorted_chunks_witness:
  "(\<exists>bs cf' qf' af' pos'.
      refill_batches demo_params (\<lambda>_. 0) [] demo_context_file demo_qn_file
        demo_ans_file 0 = Inr (bs, cf', qf', af', pos') \<and>
      map (\<lambda>b. map length (qn_ids_batch b)) bs = [[3], [1, 2]] \<and>
      list_all (\<lambda>b. sorted (map length (qn_ids_batch b))) bs)
   \<and> demo_batch2 \<in> set (yielded (get_batch_generator demo_params (\<lambda>_. 0)
                                  demo_context_file demo_qn_file demo_ans_file))
   \<and> sorted (map (\<lambda>t. min (length t) (question_len demo_params)) (qn_tokens demo_batch2))"
proof -
  from demo_refill obtain bs cf' qf' af' pos' where
    r: "refill_batches demo_params (\<lambda>_. 0) [] demo_context_file demo_qn_file
          demo_ans_file 0 = Inr (bs, cf', qf', af', pos')"
    and l: "map (\<lambda>b. map length (qn_ids_batch b)) bs = [[3], [1, 2]]"
    by (auto split: sum.splits)
  have B: "demo_batch2 \<in> set (yielded (get_batch_generator demo_params (\<lambda>_. 0)
                                  demo_context_file demo_qn_file demo_ans_file))"
    by (simp add: demo_run)
  note t = refill_sorted_chunks[of demo_params "\<lambda>_. 0" demo_context_file demo_qn_file
      demo_ans_file 0 bs cf' qf' af' pos' demo_batch2]
  from t r have sl: "list_all (\<lambda>b. sorted (map length (qn_ids_batch b))) bs"
    by (auto simp: list_all_iff)
  have ex: "\<exists>bs cf' qf' af' pos'.
      refill_batches demo_params (\<lambda>_. 0) [] demo_context_file demo_qn_file
        demo_ans_file 0 = Inr (bs, cf', qf', af', pos') \<and>
      map (\<lambda>b. map length (qn_ids_batch b)) bs = [[3], [1, 2]] \<and>
      list_all (\<lambda>b. sorted (map length (qn_ids_batch b))) bs"
    apply (rule exI[of _ bs], rule exI[of _ cf'], rule exI[of _ qf'], rule exI[of _ af'],
           rule exI[of _ pos'])
    using r l sl apply simp
    done
  from t B have
    "sorted (map (\<lambda>t. min (length t) (question_len demo_params)) (qn_tokens demo_batch2))"
    by simp
  with ex B show ?thesis by simp
qed

end
